theory Spec2Isabelle
  imports Main "HOL-Library.Multiset"
begin

section \<open>Strings and JavaScript values\<close>

text \<open>
  Identifiers, names and message contents are JavaScript strings; they are modelled as
  \<open>string\<close>. \<open>str_includes\<close> is \<open>String.prototype.includes\<close>: the second string occurs in
  the first as a contiguous piece.
\<close>

fun startsWith :: "string \<Rightarrow> string \<Rightarrow> bool" where
  "startsWith s [] = True"
| "startsWith [] (k # ks) = False"
| "startsWith (c # cs) (k # ks) = (c = k \<and> startsWith cs ks)"

fun str_includes :: "string \<Rightarrow> string \<Rightarrow> bool" where
  "str_includes [] k = (k = [])"
| "str_includes (c # cs) k = (startsWith (c # cs) k \<or> str_includes cs k)"

text \<open>
  \<open>String.prototype.toLowerCase\<close> belongs to the runtime and follows the Unicode case
  mapping; the functions that call it take it as the argument \<open>toLowerCase\<close>.
  \<open>toLowerCase_ascii\<close> is what it does to a string of ASCII characters; the examples
  use it.
\<close>

definition lowerChar :: "char \<Rightarrow> char" where
  "lowerChar c =
     (case map_of (zip ''ABCDEFGHIJKLMNOPQRSTUVWXYZ'' ''abcdefghijklmnopqrstuvwxyz'') c of
        Some l \<Rightarrow> l
      | None \<Rightarrow> c)"

definition toLowerCase_ascii :: "string \<Rightarrow> string" where
  "toLowerCase_ascii s = map lowerChar s"

text \<open>
  A value that is thrown: an \<open>Error\<close> object with its \<open>message\<close> and, when it has a
  \<open>cause\<close>, the \<open>code\<close> of the cause; or some other value (the \<open>catch\<close> block of
  \<open>executeOllamaRequest\<close> tells the two apart with \<open>instanceof\<close>).
\<close>

datatype js_error = Error string "string option" | NonError

section \<open>Persistence (services/message.ts over the Prisma client)\<close>

text \<open>
  The tables the message service and the socket handler touch. The schema file is not
  part of the sources; the columns are the ones the code reads and writes. Identifiers
  and creation times are assigned by the database; the functions below take them as
  arguments (\<open>newId\<close>, \<open>now\<close>).
\<close>

record user =
  u_id :: string
  u_username :: string
  u_avatar :: "string option"
  u_isOnline :: bool
  u_lastSeen :: nat

record conversation =
  c_id :: string
  c_isGroup :: bool
  c_participants :: "string list"

record message =
  m_id :: string
  m_content :: string
  m_senderId :: string
  m_conversationId :: string
  m_createdAt :: nat

record sender_view =
  s_id :: string
  s_username :: string
  s_avatar :: "string option"

text \<open>
  \<open>MessageWithSender\<close>: a message row together with the selected columns of its
  sender. The join finds the sender of every row the database holds, because a row is
  only created for an existing sender; \<open>None\<close> stands for a sender that is missing.
\<close>

record messageWithSender = message +
  sender :: "sender_view option"

record database =
  users :: "user list"
  conversations :: "conversation list"
  messages :: "message list"

datatype failure = RecordNotFound | ForeignKeyViolation

definition user_exists :: "string \<Rightarrow> database \<Rightarrow> bool" where
  "user_exists uid d \<longleftrightarrow> uid \<in> u_id ` set (users d)"

definition conversation_exists :: "string \<Rightarrow> database \<Rightarrow> bool" where
  "conversation_exists cid d \<longleftrightarrow> cid \<in> c_id ` set (conversations d)"

text \<open>
  \<open>prisma.user.update({ where: { id }, data: { isOnline, lastSeen } })\<close>: rejects when no
  row has the id.
\<close>

definition user_update :: "string \<Rightarrow> bool \<Rightarrow> nat \<Rightarrow> database \<Rightarrow> failure + database" where
  "user_update uid online seen d =
     (if user_exists uid d
      then Inr (d\<lparr>users :=
                   map (\<lambda>u. if u_id u = uid then u\<lparr>u_isOnline := online, u_lastSeen := seen\<rparr> else u)
                     (users d)\<rparr>)
      else Inl RecordNotFound)"

definition sender_of :: "database \<Rightarrow> string \<Rightarrow> sender_view option" where
  "sender_of d uid =
     map_option (\<lambda>u. \<lparr>s_id = u_id u, s_username = u_username u, s_avatar = u_avatar u\<rparr>)
       (find (\<lambda>u. u_id u = uid) (users d))"

definition with_sender :: "database \<Rightarrow> message \<Rightarrow> messageWithSender" where
  "with_sender d m = message.extend m (messageWithSender.fields (sender_of d (m_senderId m)))"

record CreateMessageInput =
  i_content :: string
  i_senderId :: string
  i_conversationId :: string

text \<open>The row that \<open>prisma.message.create\<close> inserts.\<close>

definition new_row :: "nat \<Rightarrow> string \<Rightarrow> string \<Rightarrow> string \<Rightarrow> string \<Rightarrow> message" where
  "new_row now newId uid cid content =
     \<lparr>m_id = newId, m_content = content, m_senderId = uid, m_conversationId = cid,
      m_createdAt = now\<rparr>"

text \<open>
  \<open>createMessage\<close>: \<open>prisma.message.create\<close> with the sender included. The row refers
  to its sender and its conversation; the create rejects when either is missing.
\<close>

definition createMessage ::
  "nat \<Rightarrow> string \<Rightarrow> CreateMessageInput \<Rightarrow> database \<Rightarrow> failure + (messageWithSender \<times> database)" where
  "createMessage now newId input d =
     (if user_exists (i_senderId input) d \<and> conversation_exists (i_conversationId input) d
      then
        (let m = new_row now newId (i_senderId input) (i_conversationId input) (i_content input)
         in Inr (with_sender d m, d\<lparr>messages := messages d @ [m]\<rparr>))
      else Inl ForeignKeyViolation)"

text \<open>
  \<open>getConversationMessages(conversationId, limit = 50, cursor?)\<close>: the rows of the
  conversation, newest first (\<open>orderBy: { createdAt: 'desc' }\<close>); with a non-empty
  cursor the page starts after the row with that id (\<open>cursor\<close> and \<open>skip: 1\<close>); at most
  \<open>limit\<close> rows are taken; the page is reversed before it is returned.

  The query does not say in which order rows with equal creation times come back. The
  order the database answers with is the argument \<open>newest_first\<close>; \<open>descending\<close> is what
  the query guarantees of it: the rows are the same and the creation times do not
  increase. \<open>by_time_desc\<close> is one such order, which leaves rows with equal creation
  times in the order of their insertion.
\<close>

definition conversation_rows :: "string \<Rightarrow> database \<Rightarrow> message list" where
  "conversation_rows cid d = filter (\<lambda>m. m_conversationId m = cid) (messages d)"

definition descending :: "(message list \<Rightarrow> message list) \<Rightarrow> bool" where
  "descending newest_first \<longleftrightarrow>
     (\<forall>rows. mset (newest_first rows) = mset rows \<and>
             sorted (rev (map m_createdAt (newest_first rows))))"

definition by_time_desc :: "message list \<Rightarrow> message list" where
  "by_time_desc rows = sort_key (\<lambda>m. - int (m_createdAt m)) rows"

definition after_cursor :: "string option \<Rightarrow> message list \<Rightarrow> message list" where
  "after_cursor cursor ms =
     (case cursor of
        None \<Rightarrow> ms
      | Some c \<Rightarrow> if c = [] then ms else drop 1 (dropWhile (\<lambda>m. m_id m \<noteq> c) ms))"

definition getConversationMessages ::
  "(message list \<Rightarrow> message list) \<Rightarrow> string \<Rightarrow> nat \<Rightarrow> string option \<Rightarrow> database
     \<Rightarrow> messageWithSender list" where
  "getConversationMessages newest_first cid limit cursor d =
     rev (map (with_sender d)
            (take limit (after_cursor cursor (newest_first (conversation_rows cid d)))))"

definition default_limit :: nat where
  "default_limit = 50"

text \<open>
  \<open>getOrCreateDirectConversation\<close> awaits two calls of the database one after the
  other. The first is \<open>findFirst\<close> over the conversations that are not groups and have
  both users among their participants. The second, made when the first found nothing,
  creates a conversation with the two participants; a participant row refers to its
  user, and the create rejects when a user is missing. Between the two calls other
  events can run, so the create works on the database as it is by then.
\<close>

definition is_direct_between :: "string \<Rightarrow> string \<Rightarrow> conversation \<Rightarrow> bool" where
  "is_direct_between userId1 userId2 c \<longleftrightarrow>
     \<not> c_isGroup c \<and> userId1 \<in> set (c_participants c) \<and> userId2 \<in> set (c_participants c)"

definition findFirst_direct :: "string \<Rightarrow> string \<Rightarrow> database \<Rightarrow> conversation option" where
  "findFirst_direct userId1 userId2 d = find (is_direct_between userId1 userId2) (conversations d)"

definition conversation_create ::
  "string \<Rightarrow> bool \<Rightarrow> string list \<Rightarrow> database \<Rightarrow> failure + (conversation \<times> database)" where
  "conversation_create newId isGroup participantIds d =
     (if list_all (\<lambda>uid. user_exists uid d) participantIds
      then
        (let c = \<lparr>c_id = newId, c_isGroup = isGroup, c_participants = participantIds\<rparr>
         in Inr (c, d\<lparr>conversations := conversations d @ [c]\<rparr>))
      else Inl ForeignKeyViolation)"

text \<open>
  The rest of the function once \<open>findFirst\<close> has answered \<open>existing\<close>, on the database
  as it is at that moment.
\<close>

definition getOrCreateDirectConversation_resume ::
  "conversation option \<Rightarrow> string \<Rightarrow> string \<Rightarrow> string \<Rightarrow> database
     \<Rightarrow> failure + (string \<times> database)" where
  "getOrCreateDirectConversation_resume existing newId userId1 userId2 d =
     (case existing of
        Some e \<Rightarrow> Inr (c_id e, d)
      | None \<Rightarrow>
          (case conversation_create newId False [userId1, userId2] d of
             Inl e \<Rightarrow> Inl e
           | Inr (c, d') \<Rightarrow> Inr (c_id c, d')))"

text \<open>A call of the function during which no other event writes to the database.\<close>

definition getOrCreateDirectConversation ::
  "string \<Rightarrow> string \<Rightarrow> string \<Rightarrow> database \<Rightarrow> failure + (string \<times> database)" where
  "getOrCreateDirectConversation newId userId1 userId2 d =
     getOrCreateDirectConversation_resume (findFirst_direct userId1 userId2 d)
       newId userId1 userId2 d"

text \<open>
  The number of direct conversations between two users, and the invariant that two
  different users share at most one.
\<close>

definition direct_count :: "string \<Rightarrow> string \<Rightarrow> database \<Rightarrow> nat" where
  "direct_count a b d = length (filter (is_direct_between a b) (conversations d))"

definition direct_unique :: "database \<Rightarrow> bool" where
  "direct_unique d \<longleftrightarrow> (\<forall>a b. a \<noteq> b \<longrightarrow> direct_count a b d \<le> 1)"

section \<open>Presence cache and backbone (services/redis.ts)\<close>

text \<open>
  The Redis set \<open>online_users\<close> and the keys \<open>user:<id>:last_seen\<close>, which hold the
  value of \<open>Date.now()\<close> at the time of the write.
\<close>

record redis_store =
  online_users :: "string set"
  last_seen :: "string \<rightharpoonup> nat"

definition setUserOnline :: "nat \<Rightarrow> string \<Rightarrow> redis_store \<Rightarrow> redis_store" where
  "setUserOnline t uid r =
     r\<lparr>online_users := insert uid (online_users r), last_seen := (last_seen r)(uid \<mapsto> t)\<rparr>"

definition setUserOffline :: "nat \<Rightarrow> string \<Rightarrow> redis_store \<Rightarrow> redis_store" where
  "setUserOffline t uid r =
     r\<lparr>online_users := online_users r - {uid}, last_seen := (last_seen r)(uid \<mapsto> t)\<rparr>"

definition getOnlineUsers :: "redis_store \<Rightarrow> string set" where
  "getOnlineUsers r = online_users r"

definition NEW_MESSAGE :: string where "NEW_MESSAGE = ''new_message''"
definition USER_ONLINE :: string where "USER_ONLINE = ''user_online''"
definition USER_OFFLINE :: string where "USER_OFFLINE = ''user_offline''"

text \<open>The payloads that are serialised and published to a channel.\<close>

datatype envelope =
  MessageEnvelope string messageWithSender
| UserEnvelope string

section \<open>Socket handler (socket/handler.ts)\<close>

text \<open>
  A connection is a \<open>UserSocket\<close>: the socket id, the optional fields \<open>userId\<close> and
  \<open>username\<close> (\<open>None\<close> is \<open>undefined\<close>) and the rooms it has joined. The state the
  handlers share is the database, the presence cache, the log of what was published to
  the backbone, the log of what was emitted to which socket, and the connected sockets.
\<close>

record userSocket =
  sock_id :: string
  userId :: "string option"
  username :: "string option"
  rooms :: "string set"

datatype outbound =
  OnlineUsers "string set"
| MessageHistory string "messageWithSender list"
| NewMessage messageWithSender
| UserOnline string
| UserOffline string
| UserTyping "string option" "string option" bool
| ConversationStarted string

record server =
  db :: database
  redis :: redis_store
  published :: "(string \<times> envelope) list"
  emitted :: "(string \<times> outbound) list"
  connections :: "userSocket list"

definition publishMessage :: "string \<Rightarrow> envelope \<Rightarrow> server \<Rightarrow> server" where
  "publishMessage channel data srv = srv\<lparr>published := published srv @ [(channel, data)]\<rparr>"

definition emit :: "string \<Rightarrow> outbound \<Rightarrow> server \<Rightarrow> server" where
  "emit sid ev srv = srv\<lparr>emitted := emitted srv @ [(sid, ev)]\<rparr>"

text \<open>
  What a handler leaves behind: the socket and the shared state as they are when the
  handler ends, and the failure it ended with, if a call it awaited was rejected. The
  writes made before the rejected call stay.
\<close>

record handled =
  h_socket :: userSocket
  h_server :: server
  h_thrown :: "failure option"

definition completed :: "userSocket \<Rightarrow> server \<Rightarrow> handled" where
  "completed sock srv = \<lparr>h_socket = sock, h_server = srv, h_thrown = None\<rparr>"

definition rejected :: "failure \<Rightarrow> userSocket \<Rightarrow> server \<Rightarrow> handled" where
  "rejected e sock srv = \<lparr>h_socket = sock, h_server = srv, h_thrown = Some e\<rparr>"

text \<open>
  The handlers. \<open>now\<close> is the value of \<open>new Date()\<close> in the handler, \<open>t\<close> the value of
  \<open>Date.now()\<close> in the presence cache, \<open>newId\<close> the identifier the database assigns,
  \<open>newest_first\<close> the order in which the database answers the history query. A
  handler is given as it runs when no other event is handled between its awaited
  calls; where the claims depend on what can happen in between, the awaited calls are
  separate functions (\<open>findFirst_direct\<close> and \<open>getOrCreateDirectConversation_resume\<close>).
\<close>

definition on_authenticate ::
  "nat \<Rightarrow> nat \<Rightarrow> string \<Rightarrow> string \<Rightarrow> userSocket \<Rightarrow> server \<Rightarrow> handled" where
  "on_authenticate now t data_userId data_username sock srv =
     (let sock' = sock\<lparr>userId := Some data_userId, username := Some data_username\<rparr>
      in case user_update data_userId True now (db srv) of
           Inl e \<Rightarrow> rejected e sock' srv
         | Inr d' \<Rightarrow>
             (let srv1 = srv\<lparr>db := d', redis := setUserOnline t data_userId (redis srv)\<rparr>;
                  srv2 = publishMessage USER_ONLINE (UserEnvelope data_userId) srv1;
                  onlineUsers = getOnlineUsers (redis srv2)
              in completed sock' (emit (sock_id sock) (OnlineUsers onlineUsers) srv2)))"

definition on_join_conversation ::
  "(message list \<Rightarrow> message list) \<Rightarrow> string \<Rightarrow> userSocket \<Rightarrow> server \<Rightarrow> handled" where
  "on_join_conversation newest_first conversationId sock srv =
     (let sock' = sock\<lparr>rooms := insert conversationId (rooms sock)\<rparr>;
          msgs = getConversationMessages newest_first conversationId default_limit None (db srv)
      in completed sock' (emit (sock_id sock) (MessageHistory conversationId msgs) srv))"

definition on_leave_conversation :: "string \<Rightarrow> userSocket \<Rightarrow> server \<Rightarrow> handled" where
  "on_leave_conversation conversationId sock srv =
     completed (sock\<lparr>rooms := rooms sock - {conversationId}\<rparr>) srv"

text \<open>\<open>!socket.userId\<close> holds for \<open>undefined\<close> and for the empty string.\<close>

definition falsy :: "string option \<Rightarrow> bool" where
  "falsy v \<longleftrightarrow> (case v of None \<Rightarrow> True | Some s \<Rightarrow> s = [])"

definition on_send_message ::
  "nat \<Rightarrow> string \<Rightarrow> string \<Rightarrow> string \<Rightarrow> userSocket \<Rightarrow> server \<Rightarrow> handled" where
  "on_send_message now newId data_conversationId data_content sock srv =
     (case userId sock of
        None \<Rightarrow> completed sock srv
      | Some uid \<Rightarrow>
          if falsy (Some uid) then completed sock srv
          else
            (case createMessage now newId
                    \<lparr>i_content = data_content, i_senderId = uid,
                     i_conversationId = data_conversationId\<rparr> (db srv) of
               Inl e \<Rightarrow> rejected e sock srv
             | Inr (msg, d') \<Rightarrow>
                 completed sock
                   (publishMessage NEW_MESSAGE (MessageEnvelope data_conversationId msg)
                      (srv\<lparr>db := d'\<rparr>))))"

definition on_typing :: "string \<Rightarrow> bool \<Rightarrow> userSocket \<Rightarrow> server \<Rightarrow> handled" where
  "on_typing data_conversationId data_isTyping sock srv =
     completed sock
       (srv\<lparr>emitted := emitted srv @
          map (\<lambda>s. (sock_id s, UserTyping (userId sock) (username sock) data_isTyping))
            (filter (\<lambda>s. data_conversationId \<in> rooms s \<and> sock_id s \<noteq> sock_id sock)
               (connections srv))\<rparr>)"

definition on_start_direct :: "string \<Rightarrow> string \<Rightarrow> userSocket \<Rightarrow> server \<Rightarrow> handled" where
  "on_start_direct newId targetUserId sock srv =
     (case userId sock of
        None \<Rightarrow> completed sock srv
      | Some uid \<Rightarrow>
          if falsy (Some uid) then completed sock srv
          else
            (case getOrCreateDirectConversation newId uid targetUserId (db srv) of
               Inl e \<Rightarrow> rejected e sock srv
             | Inr (conversationId, d') \<Rightarrow>
                 completed sock
                   (emit (sock_id sock) (ConversationStarted conversationId) (srv\<lparr>db := d'\<rparr>))))"

definition on_disconnect :: "nat \<Rightarrow> nat \<Rightarrow> userSocket \<Rightarrow> server \<Rightarrow> handled" where
  "on_disconnect now t sock srv =
     (case userId sock of
        None \<Rightarrow> completed sock srv
      | Some uid \<Rightarrow>
          if falsy (Some uid) then completed sock srv
          else
            (case user_update uid False now (db srv) of
               Inl e \<Rightarrow> rejected e sock srv
             | Inr d' \<Rightarrow>
                 completed sock
                   (publishMessage USER_OFFLINE (UserEnvelope uid)
                      (srv\<lparr>db := d', redis := setUserOffline t uid (redis srv)\<rparr>))))"

text \<open>
  The subscriber callback: a payload received from the backbone is emitted to the
  sockets of its room (\<open>new_message\<close>) or to every socket (presence).
\<close>

definition on_redis_message :: "string \<Rightarrow> envelope \<Rightarrow> server \<Rightarrow> server" where
  "on_redis_message channel data srv =
     (case data of
        MessageEnvelope conversationId msg \<Rightarrow>
          if channel = NEW_MESSAGE
          then srv\<lparr>emitted := emitted srv @
                 map (\<lambda>s. (sock_id s, NewMessage msg))
                   (filter (\<lambda>s. conversationId \<in> rooms s) (connections srv))\<rparr>
          else srv
      | UserEnvelope uid \<Rightarrow>
          if channel = USER_ONLINE
          then srv\<lparr>emitted := emitted srv @
                 map (\<lambda>s. (sock_id s, UserOnline uid)) (connections srv)\<rparr>
          else if channel = USER_OFFLINE
          then srv\<lparr>emitted := emitted srv @
                 map (\<lambda>s. (sock_id s, UserOffline uid)) (connections srv)\<rparr>
          else srv)"

text \<open>
  The events of one connection, and their delivery: the handler runs on the socket
  registered under the id, the socket is written back, and a disconnected socket leaves
  the registry. An event for an id that is not connected does not occur (\<open>None\<close>).
  With an event come the values its handler reads from its surroundings: the two
  clocks, the identifier the database assigns and the order in which it answers.
\<close>

datatype inbound =
  Authenticate string string
| JoinConversation string
| LeaveConversation string
| SendMessage string string
| Typing string bool
| StartDirect string
| Disconnect

record surroundings =
  date_now :: nat
  cache_now :: nat
  fresh_id :: string
  row_order :: "message list \<Rightarrow> message list"

fun handle :: "surroundings \<Rightarrow> inbound \<Rightarrow> userSocket \<Rightarrow> server \<Rightarrow> handled" where
  "handle k (Authenticate uid uname) sock srv =
     on_authenticate (date_now k) (cache_now k) uid uname sock srv"
| "handle k (JoinConversation cid) sock srv = on_join_conversation (row_order k) cid sock srv"
| "handle k (LeaveConversation cid) sock srv = on_leave_conversation cid sock srv"
| "handle k (SendMessage cid content) sock srv =
     on_send_message (date_now k) (fresh_id k) cid content sock srv"
| "handle k (Typing cid isTyping) sock srv = on_typing cid isTyping sock srv"
| "handle k (StartDirect target) sock srv = on_start_direct (fresh_id k) target sock srv"
| "handle k Disconnect sock srv = on_disconnect (date_now k) (cache_now k) sock srv"

definition connect :: "string \<Rightarrow> server \<Rightarrow> server" where
  "connect sid srv =
     srv\<lparr>connections := connections srv @
            [\<lparr>sock_id = sid, userId = None, username = None, rooms = {}\<rparr>]\<rparr>"

definition store_socket :: "inbound \<Rightarrow> userSocket \<Rightarrow> userSocket list \<Rightarrow> userSocket list" where
  "store_socket ev sock cs =
     (if ev = Disconnect then filter (\<lambda>s. sock_id s \<noteq> sock_id sock) cs
      else map (\<lambda>s. if sock_id s = sock_id sock then sock else s) cs)"

definition deliver :: "surroundings \<Rightarrow> string \<Rightarrow> inbound \<Rightarrow> server \<Rightarrow> (server \<times> failure option) option" where
  "deliver k sid ev srv =
     (case find (\<lambda>s. sock_id s = sid) (connections srv) of
        None \<Rightarrow> None
      | Some sock \<Rightarrow>
          (let h = handle k ev sock srv
           in Some ((h_server h)\<lparr>connections := store_socket ev (h_socket h) (connections (h_server h))\<rparr>,
                    h_thrown h)))"

section \<open>Query intent (services/context.ts)\<close>

datatype queryType = Project | Task | Profile | General

record intent =
  isDataQuery :: bool
  queryType :: queryType
  i_keywords :: "string list"

definition projectKeywords :: "string list" where
  "projectKeywords = [''project'', ''projects'', ''status'', ''deadline'', ''progress'', ''budget'']"

definition taskKeywords :: "string list" where
  "taskKeywords = [''task'', ''tasks'', ''todo'', ''to-do'', ''assigned'', ''pending'', ''completed'']"

definition profileKeywords :: "string list" where
  "profileKeywords = [''my profile'', ''my info'', ''my account'', ''my details'', ''who am i'']"

definition analyzeQueryIntent :: "(string \<Rightarrow> string) \<Rightarrow> string \<Rightarrow> intent" where
  "analyzeQueryIntent toLowerCase query =
     (let lowerQuery = toLowerCase query;
          hasProjectKeyword = list_ex (str_includes lowerQuery) projectKeywords;
          hasTaskKeyword = list_ex (str_includes lowerQuery) taskKeywords;
          hasProfileKeyword = list_ex (str_includes lowerQuery) profileKeywords
      in \<lparr>isDataQuery =
             (hasProjectKeyword \<or> hasTaskKeyword \<or> hasProfileKeyword \<or>
              str_includes lowerQuery ''my '' \<or> str_includes lowerQuery ''what is my''),
           queryType =
             (if hasProjectKeyword then Project
              else if hasTaskKeyword then Task
              else if hasProfileKeyword then Profile
              else General),
           i_keywords =
             filter (str_includes lowerQuery) (projectKeywords @ taskKeywords @ profileKeywords)\<rparr>)"

section \<open>Admission-controlled request dispatcher (services/ollama.ts)\<close>

definition DEFAULT_MODEL :: string where
  "DEFAULT_MODEL = ''gemma3:1b''"

definition MAX_CONCURRENT_REQUESTS :: int where
  "MAX_CONCURRENT_REQUESTS = 5"

datatype role = RoleUser | RoleAssistant | RoleSystem

record chatMessage =
  cm_role :: role
  cm_content :: string

text \<open>
  What the calls awaited by \<open>executeOllamaRequest\<close> come back with. Each is the answer of
  a collaborator (the database or the language-model server), so it is an input of the
  model: the value, or the error the call was rejected with. \<open>fetch\<close> is rejected when
  the server cannot be reached; otherwise there is a response with its \<open>ok\<close> flag, its
  status line and the outcome of reading \<open>data.message.content\<close> from its JSON body.
\<close>

record response =
  ok :: bool
  status :: nat
  statusText :: string
  message_content :: "js_error + string"

datatype fetched = FetchRejected js_error | Response response

record awaited =
  got_context :: "js_error + string"
  got_history :: "js_error + chatMessage list"
  saved_user :: "js_error option"
  got_fetch :: fetched
  saved_assistant :: "js_error option"

text \<open>
  The module calls the \<open>fetch\<close> of the runtime (it imports no other). When the server
  refuses the connection, that \<open>fetch\<close> is rejected with a \<open>TypeError\<close> whose message is
  \<open>fetch failed\<close>; the system error, with its code \<open>ECONNREFUSED\<close>, is the \<open>cause\<close> of
  that error. Any other failure of the connection is reported the same way with
  another code, for example \<open>ECONNRESET\<close>.
\<close>

definition fetch_refused :: js_error where
  "fetch_refused = Error ''fetch failed'' (Some ''ECONNREFUSED'')"

definition fetch_reset :: js_error where
  "fetch_reset = Error ''fetch failed'' (Some ''ECONNRESET'')"

text \<open>What one execution did: the rows it saved and the request it sent.\<close>

datatype effect =
  SaveBotMessage string role string string "(queryType \<times> string list) option"
| PostChat string "chatMessage list"

fun show_nat :: "nat \<Rightarrow> string" where
  "show_nat n =
     (if n < 10 then [''0123456789'' ! n]
      else show_nat (n div 10) @ [''0123456789'' ! (n mod 10)])"

definition base_prompt :: string where
  "base_prompt = ''You are SEO Assistant, an AI helper for the SEO Chat app. You are friendly, helpful, and concise.''"

definition systemPrompt :: "intent \<Rightarrow> string \<Rightarrow> string" where
  "systemPrompt i dbContext =
     (if isDataQuery i \<and> dbContext \<noteq> []
      then base_prompt @
        ''\<newline>\<newline>You have access to the user's data from the database. When they ask about their projects, tasks, or profile, use this information to give accurate answers:\<newline>'' @
        dbContext @
        ''\<newline>\<newline>IMPORTANT: Base your answers on the actual data provided above. Be specific about project names, statuses, deadlines, and task details.''
      else base_prompt @
        '' Keep responses short and conversational unless the user asks for detailed information.'')"

definition unreachable_apology :: string where
  "unreachable_apology = ''I'm having trouble connecting to my brain (Ollama). Make sure Ollama is running!''"

text \<open>The \<open>catch\<close> block of \<open>executeOllamaRequest\<close>.\<close>

definition catch_block :: "js_error \<Rightarrow> string" where
  "catch_block e =
     (let errorMsg = (case e of Error m c \<Rightarrow> m | NonError \<Rightarrow> ''Unknown error'')
      in if str_includes errorMsg ''ECONNREFUSED'' then unreachable_apology
         else ''Sorry, I encountered an error: '' @ errorMsg)"

text \<open>The \<open>try\<close> block, given the effects so far.\<close>

definition try_block ::
  "awaited \<Rightarrow> intent \<Rightarrow> string \<Rightarrow> string \<Rightarrow> effect list \<Rightarrow> string \<times> effect list" where
  "try_block w i uid model fx =
     (case got_fetch w of
        FetchRejected e \<Rightarrow> (catch_block e, fx)
      | Response resp \<Rightarrow>
          if \<not> ok resp
          then (catch_block
                  (Error (''Ollama returned '' @ show_nat (status resp) @ '': '' @ statusText resp)
                     None),
                fx)
          else
            (case message_content resp of
               Inl e \<Rightarrow> (catch_block e, fx)
             | Inr assistantMessage \<Rightarrow>
                 (case saved_assistant w of
                    Some e \<Rightarrow> (catch_block e, fx)
                  | None \<Rightarrow>
                      (assistantMessage,
                       fx @ [SaveBotMessage uid RoleAssistant assistantMessage model
                               (if isDataQuery i then Some (queryType i, i_keywords i) else None)]))))"

text \<open>
  \<open>executeOllamaRequest\<close>: \<open>Inr\<close> is the string the promise is fulfilled with, \<open>Inl\<close> the
  error it is rejected with. The calls before the \<open>try\<close> block are not guarded.
\<close>

definition executeOllamaRequest ::
  "(string \<Rightarrow> string) \<Rightarrow> awaited \<Rightarrow> string \<Rightarrow> string \<Rightarrow> string
     \<Rightarrow> (js_error + string) \<times> effect list" where
  "executeOllamaRequest toLowerCase w uid userMessage model =
     (let i = analyzeQueryIntent toLowerCase userMessage
      in case (if isDataQuery i then got_context w else Inr []) of
           Inl e \<Rightarrow> (Inl e, [])
         | Inr dbContext \<Rightarrow>
             (case got_history w of
                Inl e \<Rightarrow> (Inl e, [])
              | Inr history \<Rightarrow>
                  (case saved_user w of
                     Some e \<Rightarrow> (Inl e, [])
                   | None \<Rightarrow>
                       (let msgs = [\<lparr>cm_role = RoleSystem, cm_content = systemPrompt i dbContext\<rparr>]
                                   @ history
                                   @ [\<lparr>cm_role = RoleUser, cm_content = userMessage\<rparr>];
                            fx = [SaveBotMessage uid RoleUser userMessage model None,
                                  PostChat model msgs];
                            r = try_block w i uid model fx
                        in (Inr (fst r), snd r)))))"

text \<open>
  The module keeps two pieces of mutable state: the counter \<open>activeRequests\<close> and the
  array \<open>requestQueue\<close>. A queue entry holds the \<open>resolve\<close> and \<open>reject\<close> closures of the
  promise returned by \<open>chatWithOllama\<close>, and the call parameters. The pair of closures is
  unique to one call; it is represented by a ticket number. Beside the two variables,
  the state records the requests whose execution is in flight, the order in which
  executions started, and how each promise was settled.
\<close>

record params =
  p_userId :: string
  p_userMessage :: string
  p_model :: string

record request =
  ticket :: nat
  params :: params

datatype settlement = Resolved string | Rejected js_error

record dispatcher =
  activeRequests :: int
  requestQueue :: "request list"
  nextTicket :: nat
  executing :: "request list"
  startLog :: "request list"
  settled :: "(nat \<times> settlement) list"

definition initial_dispatcher :: dispatcher where
  "initial_dispatcher =
     \<lparr>activeRequests = 0, requestQueue = [], nextTicket = 0,
      executing = [], startLog = [], settled = []\<rparr>"

text \<open>
  \<open>processQueue\<close> is an async function whose loop body awaits the request it started.
  A call runs through the loop test, \<open>shift\<close>, \<open>activeRequests++\<close> and the call of
  \<open>executeOllamaRequest\<close> without interruption and is suspended there, or leaves the
  loop at once when the test fails.
\<close>

definition processQueue :: "dispatcher \<Rightarrow> dispatcher" where
  "processQueue d =
     (case requestQueue d of
        [] \<Rightarrow> d
      | r # q \<Rightarrow>
          if activeRequests d < MAX_CONCURRENT_REQUESTS
          then d\<lparr>requestQueue := q,
                 activeRequests := activeRequests d + 1,
                 executing := executing d @ [r],
                 startLog := startLog d @ [r]\<rparr>
          else d)"

text \<open>
  The rest of a suspended call once the execution of its request \<open>r\<close> has ended:
  \<open>resolve\<close> or \<open>reject\<close>, then the \<open>finally\<close> block (\<open>activeRequests--\<close> and a nested
  call of \<open>processQueue\<close>), then the loop test of the resumed call, which is one more
  pass through the same loop body.
\<close>

definition settle :: "js_error + string \<Rightarrow> settlement" where
  "settle res = (case res of Inr v \<Rightarrow> Resolved v | Inl e \<Rightarrow> Rejected e)"

definition processQueue_resume :: "request \<Rightarrow> js_error + string \<Rightarrow> dispatcher \<Rightarrow> dispatcher" where
  "processQueue_resume r res d =
     processQueue (processQueue
       (d\<lparr>settled := settled d @ [(ticket r, settle res)],
          executing := remove1 r (executing d),
          activeRequests := activeRequests d - 1\<rparr>))"

definition chatWithOllama :: "string \<Rightarrow> string \<Rightarrow> string option \<Rightarrow> dispatcher \<Rightarrow> dispatcher" where
  "chatWithOllama uid userMessage model d =
     processQueue
       (d\<lparr>requestQueue := requestQueue d @
             [\<lparr>ticket = nextTicket d,
               params = \<lparr>p_userId = uid, p_userMessage = userMessage,
                         p_model = (case model of None \<Rightarrow> DEFAULT_MODEL | Some m \<Rightarrow> m)\<rparr>\<rparr>],
          nextTicket := nextTicket d + 1\<rparr>)"

definition getQueueStatus :: "dispatcher \<Rightarrow> int \<times> nat \<times> int" where
  "getQueueStatus d = (activeRequests d, length (requestQueue d), MAX_CONCURRENT_REQUESTS)"

text \<open>
  The events the event loop delivers to the dispatcher: a call of \<open>chatWithOllama\<close>, and
  the end of the execution of a request, with what its awaited calls came back with. A
  request that is not executing cannot end; the step function returns \<open>None\<close> for it.
\<close>

datatype event = Submit string string "string option" | Settle nat awaited

definition execution_result ::
  "(string \<Rightarrow> string) \<Rightarrow> awaited \<Rightarrow> request \<Rightarrow> js_error + string" where
  "execution_result toLowerCase w r =
     fst (executeOllamaRequest toLowerCase w (p_userId (params r)) (p_userMessage (params r))
            (p_model (params r)))"

fun step :: "(string \<Rightarrow> string) \<Rightarrow> event \<Rightarrow> dispatcher \<Rightarrow> dispatcher option" where
  "step toLowerCase (Submit uid userMessage model) d =
     Some (chatWithOllama uid userMessage model d)"
| "step toLowerCase (Settle t w) d =
     (case find (\<lambda>r. ticket r = t) (executing d) of
        None \<Rightarrow> None
      | Some r \<Rightarrow> Some (processQueue_resume r (execution_result toLowerCase w r) d))"

fun run :: "(string \<Rightarrow> string) \<Rightarrow> event list \<Rightarrow> dispatcher \<Rightarrow> dispatcher option" where
  "run toLowerCase [] d = Some d"
| "run toLowerCase (e # es) d =
     (case step toLowerCase e d of None \<Rightarrow> None | Some d' \<Rightarrow> run toLowerCase es d')"

fun is_Settle :: "event \<Rightarrow> bool" where
  "is_Settle (Settle t w) = True"
| "is_Settle (Submit uid userMessage model) = False"

definition settlements :: "event list \<Rightarrow> nat" where
  "settlements es = length (filter is_Settle es)"

definition submissions :: "event list \<Rightarrow> nat" where
  "submissions es = length (filter (\<lambda>e. \<not> is_Settle e) es)"

text \<open>The invariant of the dispatcher between two events.\<close>

definition disp_inv :: "dispatcher \<Rightarrow> bool" where
  "disp_inv d \<longleftrightarrow>
     activeRequests d = int (length (executing d)) \<and>
     activeRequests d \<le> MAX_CONCURRENT_REQUESTS \<and>
     (requestQueue d \<noteq> [] \<longrightarrow> activeRequests d = MAX_CONCURRENT_REQUESTS) \<and>
     map ticket (startLog d @ requestQueue d) = [0..<nextTicket d]"

section \<open>Scenarios\<close>

text \<open>
  A sequence of \<open>send_message\<close> events on one connection for one conversation, one
  after the other; each comes with the creation time and the identifier the database
  assigns, and its content.
\<close>

fun send_all :: "(nat \<times> string \<times> string) list \<Rightarrow> string \<Rightarrow> userSocket \<Rightarrow> server \<Rightarrow> server" where
  "send_all [] cid sock srv = srv"
| "send_all ((now, newId, content) # rest) cid sock srv =
     send_all rest cid sock (h_server (on_send_message now newId cid content sock srv))"

fun row_of :: "string \<Rightarrow> string \<Rightarrow> nat \<times> string \<times> string \<Rightarrow> message" where
  "row_of uid cid (now, newId, content) = new_row now newId uid cid content"

definition contents_of :: "(nat \<times> string \<times> string) list \<Rightarrow> string list" where
  "contents_of sends = map (\<lambda>s. snd (snd s)) sends"

section \<open>Example data\<close>

definition all_fine :: awaited where
  "all_fine =
     \<lparr>got_context = Inr [], got_history = Inr [], saved_user = None,
      got_fetch = Response \<lparr>ok = True, status = 200, statusText = ''OK'',
                             message_content = Inr ''Hello!''\<rparr>,
      saved_assistant = None\<rparr>"

definition database_down :: awaited where
  "database_down = all_fine\<lparr>got_history := Inl (Error ''database is down'' None)\<rparr>"

definition two_users :: database where
  "two_users =
     \<lparr>users = [\<lparr>u_id = ''u1'', u_username = ''Alice'', u_avatar = None, u_isOnline = False, u_lastSeen = 0\<rparr>,
               \<lparr>u_id = ''u2'', u_username = ''Bob'', u_avatar = None, u_isOnline = False, u_lastSeen = 0\<rparr>],
      conversations = [], messages = []\<rparr>"

definition chat_db :: database where
  "chat_db = two_users\<lparr>conversations :=
     [\<lparr>c_id = ''c1'', c_isGroup = False, c_participants = [''u1'', ''u2'']\<rparr>]\<rparr>"

definition new_socket :: "string \<Rightarrow> userSocket" where
  "new_socket sid = \<lparr>sock_id = sid, userId = None, username = None, rooms = {}\<rparr>"

definition alice_socket :: userSocket where
  "alice_socket = (new_socket ''s1'')\<lparr>userId := Some ''u1'', username := Some ''Alice''\<rparr>"

definition alice_second_socket :: userSocket where
  "alice_second_socket = (new_socket ''s2'')\<lparr>userId := Some ''u1'', username := Some ''Alice''\<rparr>"

definition chat_server :: server where
  "chat_server =
     \<lparr>db = chat_db,
      redis = \<lparr>online_users = {''u1''}, last_seen = Map.empty\<rparr>,
      published = [], emitted = [],
      connections = [alice_socket, alice_second_socket, new_socket ''s3'']\<rparr>"

definition unreachable :: awaited where
  "unreachable = all_fine\<lparr>got_fetch := FetchRejected fetch_refused\<rparr>"

definition connection_reset :: awaited where
  "connection_reset = all_fine\<lparr>got_fetch := FetchRejected fetch_reset\<rparr>"

definition hello_request :: request where
  "hello_request =
     \<lparr>ticket = 0, params = \<lparr>p_userId = ''u1'', p_userMessage = ''hello'', p_model = ''gemma3:1b''\<rparr>\<rparr>"

definition two_sends :: "(nat \<times> string \<times> string) list" where
  "two_sends = [(1, ''m1'', ''hi''), (2, ''m2'', ''there'')]"

definition fifty_one :: "(nat \<times> string \<times> string) list" where
  "fifty_one = zip [1..<52] (zip (map show_nat [1..<52]) (map show_nat [1..<52]))"

definition one_direct :: database where
  "one_direct = two_users\<lparr>conversations :=
     [\<lparr>c_id = ''c1'', c_isGroup = False, c_participants = [''u1'', ''u2'']\<rparr>]\<rparr>"

definition two_direct :: database where
  "two_direct = two_users\<lparr>conversations :=
     [\<lparr>c_id = ''c1'', c_isGroup = False, c_participants = [''u1'', ''u2'']\<rparr>,
      \<lparr>c_id = ''c2'', c_isGroup = False, c_participants = [''u2'', ''u1'']\<rparr>]\<rparr>"

definition hi_row :: message where
  "hi_row = new_row 1 ''m1'' ''u1'' ''c1'' ''hi''"

definition elsewhere_row :: message where
  "elsewhere_row = new_row 2 ''m2'' ''u2'' ''g1'' ''elsewhere''"

definition there_row :: message where
  "there_row = new_row 3 ''m3'' ''u2'' ''c1'' ''there''"

definition history_server :: server where
  "history_server =
     chat_server\<lparr>db := chat_db\<lparr>
       conversations := conversations chat_db @
         [\<lparr>c_id = ''g1'', c_isGroup = True, c_participants = [''u1'', ''u2'']\<rparr>],
       messages := [hi_row, elsewhere_row, there_row]\<rparr>\<rparr>"

definition nine :: surroundings where
  "nine = \<lparr>date_now = 9, cache_now = 9, fresh_id = ''x'', row_order = by_time_desc\<rparr>"

section \<open>The dispatcher: bounded concurrency, FIFO start order, progress\<close>

lemma disp_inv_initial: "disp_inv initial_dispatcher"
  by (simp add: disp_inv_def initial_dispatcher_def MAX_CONCURRENT_REQUESTS_def)

lemma find_length_remove1:
  assumes "find P xs = Some r"
  shows "int (length (remove1 r xs)) = int (length xs) - 1"
proof -
  from assms have "r \<in> set xs" by (auto simp: find_Some_iff)
  then show ?thesis by (simp add: length_remove1) (cases xs; auto)
qed

lemma disp_inv_submit: "disp_inv d \<Longrightarrow> disp_inv (chatWithOllama uid userMessage model d)"
  by (cases "requestQueue d")
     (auto simp: disp_inv_def chatWithOllama_def processQueue_def MAX_CONCURRENT_REQUESTS_def)

lemma disp_inv_resume:
  "disp_inv d \<Longrightarrow> find P (executing d) = Some r \<Longrightarrow> disp_inv (processQueue_resume r res d)"
  apply (frule find_length_remove1)
  apply (cases "requestQueue d")
   apply (auto simp: disp_inv_def processQueue_resume_def processQueue_def
      MAX_CONCURRENT_REQUESTS_def split: list.splits)
  done

lemma disp_inv_step: "disp_inv d \<Longrightarrow> step toLowerCase e d = Some d' \<Longrightarrow> disp_inv d'"
  by (cases e) (auto simp: disp_inv_submit disp_inv_resume split: option.splits)

lemma disp_inv_run: "disp_inv d \<Longrightarrow> run toLowerCase es d = Some d' \<Longrightarrow> disp_inv d'"
  by (induction es arbitrary: d) (auto split: option.splits dest: disp_inv_step)

text \<open>
  A call of \<open>processQueue\<close> moves requests from the front of the queue to the end of the
  start log and does nothing else to the two lists.
\<close>

lemma processQueue_all:
  "startLog (processQueue d) @ requestQueue (processQueue d) = startLog d @ requestQueue d"
  by (simp add: processQueue_def split: list.splits)

lemma processQueue_startLog: "\<exists>ys. startLog (processQueue d) = startLog d @ ys"
  by (simp add: processQueue_def split: list.splits)

lemma processQueue_nextTicket: "nextTicket (processQueue d) = nextTicket d"
  by (simp add: processQueue_def split: list.splits)

lemma resume_startLog: "\<exists>ys. startLog (processQueue_resume r res d) = startLog d @ ys"
proof -
  define d0 where "d0 = d\<lparr>settled := settled d @ [(ticket r, settle res)],
          executing := remove1 r (executing d),
          activeRequests := activeRequests d - 1\<rparr>"
  obtain ys where 1: "startLog (processQueue d0) = startLog d0 @ ys"
    using processQueue_startLog by blast
  obtain zs where 2: "startLog (processQueue (processQueue d0)) = startLog (processQueue d0) @ zs"
    using processQueue_startLog by blast
  have "startLog (processQueue_resume r res d) = startLog d @ ys @ zs"
    using 1 2 by (simp add: processQueue_resume_def d0_def)
  then show ?thesis by blast
qed

lemma submit_startLog: "\<exists>ys. startLog (chatWithOllama uid userMessage model d) = startLog d @ ys"
proof -
  define d0 where "d0 = d\<lparr>requestQueue := requestQueue d @
             [\<lparr>ticket = nextTicket d,
               params = \<lparr>p_userId = uid, p_userMessage = userMessage,
                         p_model = (case model of None \<Rightarrow> DEFAULT_MODEL | Some m \<Rightarrow> m)\<rparr>\<rparr>],
          nextTicket := nextTicket d + 1\<rparr>"
  obtain ys where "startLog (processQueue d0) = startLog d0 @ ys"
    using processQueue_startLog by blast
  then have "startLog (chatWithOllama uid userMessage model d) = startLog d @ ys"
    by (simp add: chatWithOllama_def d0_def)
  then show ?thesis by blast
qed

lemma step_startLog_mono:
  "step toLowerCase e d = Some d' \<Longrightarrow> \<exists>ys. startLog d' = startLog d @ ys"
  by (cases e) (auto simp: submit_startLog resume_startLog split: option.splits)

lemma step_all_mono:
  "step toLowerCase e d = Some d' \<Longrightarrow>
     \<exists>ys. startLog d' @ requestQueue d' = startLog d @ requestQueue d @ ys"
  by (cases e)
     (auto simp: chatWithOllama_def processQueue_resume_def processQueue_all split: option.splits)

lemma step_settle_progress:
  "disp_inv d \<Longrightarrow> step toLowerCase (Settle t w) d = Some d' \<Longrightarrow>
     length (startLog d') = length (startLog d) + min 1 (length (requestQueue d))"
  apply (cases "requestQueue d")
   apply (auto simp: disp_inv_def processQueue_resume_def processQueue_def
      MAX_CONCURRENT_REQUESTS_def split: option.splits list.splits)
  done

lemma step_nextTicket:
  "step toLowerCase e d = Some d' \<Longrightarrow> nextTicket d' = nextTicket d + (if is_Settle e then 0 else 1)"
  by (cases e)
     (auto simp: chatWithOllama_def processQueue_resume_def processQueue_nextTicket
           split: option.splits)

lemma run_nextTicket:
  "run toLowerCase es d = Some d' \<Longrightarrow> nextTicket d' = nextTicket d + submissions es"
proof (induction es arbitrary: d)
  case Nil
  then show ?case by (simp add: submissions_def)
next
  case (Cons e es)
  then obtain d1 where 1: "step toLowerCase e d = Some d1" and 2: "run toLowerCase es d1 = Some d'"
    by (auto split: option.splits)
  from step_nextTicket[OF 1] Cons.IH[OF 2] show ?case
    by (simp add: submissions_def)
qed

lemma run_all_mono:
  "run toLowerCase es d = Some d' \<Longrightarrow>
     \<exists>ys. startLog d' @ requestQueue d' = startLog d @ requestQueue d @ ys"
proof (induction es arbitrary: d)
  case Nil
  then show ?case by simp
next
  case (Cons e es)
  then obtain d1 where 1: "step toLowerCase e d = Some d1" and 2: "run toLowerCase es d1 = Some d'"
    by (auto split: option.splits)
  from step_all_mono[OF 1] obtain ys where
    a: "startLog d1 @ requestQueue d1 = startLog d @ requestQueue d @ ys" by blast
  from Cons.IH[OF 2] obtain zs where
    b: "startLog d' @ requestQueue d' = startLog d1 @ requestQueue d1 @ zs" by blast
  have "startLog d' @ requestQueue d' = startLog d @ requestQueue d @ (ys @ zs)"
    using a b by (metis append.assoc)
  then show ?case by blast
qed

text \<open>
  Every end of an execution starts the request at the front of the queue, so the start
  log grows by one for each of them as long as requests wait.
\<close>

lemma run_progress:
  "disp_inv d \<Longrightarrow> run toLowerCase es d = Some d' \<Longrightarrow>
     min (length (startLog d) + settlements es) (length (startLog d) + length (requestQueue d))
       \<le> length (startLog d')"
proof (induction es arbitrary: d)
  case Nil
  then show ?case by (simp add: settlements_def)
next
  case (Cons e es)
  then obtain d1 where 1: "step toLowerCase e d = Some d1" and 2: "run toLowerCase es d1 = Some d'"
    by (auto split: option.splits)
  have inv1: "disp_inv d1" using disp_inv_step[OF Cons.prems(1) 1] .
  note IH = Cons.IH[OF inv1 2]
  from step_all_mono[OF 1]
  have len: "length (startLog d) + length (requestQueue d)
               \<le> length (startLog d1) + length (requestQueue d1)"
    by (metis length_append le_add1 append.assoc)
  from step_startLog_mono[OF 1] have mono: "length (startLog d) \<le> length (startLog d1)" by auto
  show ?case
  proof (cases e)
    case (Submit uid userMessage model)
    then have "settlements (e # es) = settlements es" by (simp add: settlements_def)
    with IH len mono show ?thesis by linarith
  next
    case (Settle t w)
    then have s: "settlements (e # es) = Suc (settlements es)" by (simp add: settlements_def)
    from step_settle_progress[OF Cons.prems(1)] 1 Settle
    have "length (startLog d1) = length (startLog d) + min 1 (length (requestQueue d))" by simp
    with IH len s show ?thesis by linarith
  qed
qed

lemma run_queue_started:
  assumes inv: "disp_inv d" and run: "run toLowerCase es d = Some d'"
    and enough: "length (requestQueue d) \<le> settlements es"
  shows "set (requestQueue d) \<subseteq> set (startLog d')"
proof -
  from run_all_mono[OF run] obtain ys where
    a: "startLog d' @ requestQueue d' = (startLog d @ requestQueue d) @ ys" by auto
  from run_progress[OF inv run] enough
  have "length (startLog d @ requestQueue d) \<le> length (startLog d')" by simp
  then have "startLog d @ requestQueue d = take (length (startLog d @ requestQueue d)) (startLog d')"
    using a by (metis append_eq_append_conv_if)
  then have "set (startLog d @ requestQueue d) \<subseteq> set (startLog d')"
    by (metis set_take_subset)
  then show ?thesis by simp
qed

lemmas dispatcher_eval = chatWithOllama_def processQueue_def processQueue_resume_def
  MAX_CONCURRENT_REQUESTS_def initial_dispatcher_def DEFAULT_MODEL_def

text \<open>
  Claim C1. In every state the dispatcher reaches from its initial state by calls of
  \<open>chatWithOllama\<close> and ends of executions: at most \<open>MAX_CONCURRENT_REQUESTS = 5\<close>
  requests are executing, and \<open>activeRequests\<close> counts them; the requests started so far,
  followed by the requests still queued, are the submissions in the order they were
  made, so requests start in submission order; a request waits only while five are
  executing; and every queued request has started once as many executions have ended
  as there are requests in the queue.
\<close>

theorem dispatcher_bounded_fifo:
  assumes "run toLowerCase es initial_dispatcher = Some d"
  shows "activeRequests d \<le> MAX_CONCURRENT_REQUESTS \<and>
         int (length (executing d)) = activeRequests d \<and>
         nextTicket d = submissions es \<and>
         map ticket (startLog d @ requestQueue d) = [0..<nextTicket d] \<and>
         (requestQueue d \<noteq> [] \<longrightarrow> activeRequests d = MAX_CONCURRENT_REQUESTS) \<and>
         (\<forall>es' d'. run toLowerCase es' d = Some d' \<and> length (requestQueue d) \<le> settlements es'
            \<longrightarrow> set (requestQueue d) \<subseteq> set (startLog d'))"
proof -
  have inv: "disp_inv d"
    using disp_inv_run[OF disp_inv_initial assms] .
  have "nextTicket d = submissions es"
    using run_nextTicket[OF assms] by (simp add: initial_dispatcher_def)
  moreover have "\<forall>es' d'. run toLowerCase es' d = Some d' \<and> length (requestQueue d) \<le> settlements es'
            \<longrightarrow> set (requestQueue d) \<subseteq> set (startLog d')"
    using run_queue_started[OF inv] by blast
  moreover have "int (length (executing d)) = activeRequests d"
    using inv by (simp add: disp_inv_def)
  moreover have "activeRequests d \<le> MAX_CONCURRENT_REQUESTS"
    and "map ticket (startLog d @ requestQueue d) = [0..<nextTicket d]"
    and "requestQueue d \<noteq> [] \<longrightarrow> activeRequests d = MAX_CONCURRENT_REQUESTS"
    using inv unfolding disp_inv_def by blast+
  ultimately show ?thesis by blast
qed

theorem dispatcher_bounded_fifo_witness:
  "\<exists>d d'. run toLowerCase_ascii (replicate 7 (Submit ''u1'' ''hello'' None)) initial_dispatcher = Some d \<and>
     activeRequests d = 5 \<and> map ticket (startLog d) = [0, 1, 2, 3, 4] \<and>
     map ticket (requestQueue d) = [5, 6] \<and>
     run toLowerCase_ascii [Settle 0 all_fine, Settle 3 database_down] d = Some d' \<and>
     set (requestQueue d) \<subseteq> set (startLog d') \<and>
     map ticket (startLog d') = [0, 1, 2, 3, 4, 5, 6] \<and> activeRequests d' = 5"
proof -
  define d where "d = the (run toLowerCase_ascii (replicate 7 (Submit ''u1'' ''hello'' None)) initial_dispatcher)"
  define d' where "d' = the (run toLowerCase_ascii [Settle 0 all_fine, Settle 3 database_down] d)"
  have r1: "run toLowerCase_ascii (replicate 7 (Submit ''u1'' ''hello'' None)) initial_dispatcher = Some d"
    unfolding d_def by (simp add: dispatcher_eval numeral_eq_Suc)
  have r2: "run toLowerCase_ascii [Settle 0 all_fine, Settle 3 database_down] d = Some d'"
    unfolding d'_def d_def by (simp add: dispatcher_eval numeral_eq_Suc)
  have q: "map ticket (requestQueue d) = [5, 6]" "map ticket (startLog d) = [0, 1, 2, 3, 4]"
    unfolding d_def by (simp_all add: dispatcher_eval numeral_eq_Suc)
  have s: "length (requestQueue d) \<le> settlements [Settle 0 all_fine, Settle 3 database_down]"
    using q(1) by (simp add: settlements_def flip: length_map[of ticket])
  have l: "map ticket (startLog d') = [0, 1, 2, 3, 4, 5, 6]" "activeRequests d' = 5"
    unfolding d'_def d_def by (simp_all add: dispatcher_eval numeral_eq_Suc)
  from dispatcher_bounded_fifo[OF r1] r2 s
  have "set (requestQueue d) \<subseteq> set (startLog d')"
    and "activeRequests d \<le> MAX_CONCURRENT_REQUESTS"
    and "requestQueue d \<noteq> [] \<longrightarrow> activeRequests d = MAX_CONCURRENT_REQUESTS"
    by blast+
  moreover have "requestQueue d \<noteq> []" using q(1) by auto
  ultimately show ?thesis using r1 r2 q l by (auto simp: MAX_CONCURRENT_REQUESTS_def)
qed

section \<open>Direct conversations\<close>

lemma is_direct_between_commute: "is_direct_between a b c = is_direct_between b a c"
  by (auto simp: is_direct_between_def)

lemma direct_count_commute: "direct_count a b d = direct_count b a d"
  unfolding direct_count_def
  by (rule arg_cong[where f = length], rule filter_cong) (auto simp: is_direct_between_commute)

lemma find_None_direct_count:
  "find (is_direct_between a b) (conversations d) = None \<longleftrightarrow> direct_count a b d = 0"
  by (auto simp: find_None_iff direct_count_def filter_empty_conv)

lemma found_unchanged:
  assumes "find (is_direct_between a b) (conversations d) = Some c"
  shows "getOrCreateDirectConversation n a b d = Inr (c_id c, d)"
    and "getOrCreateDirectConversation n b a d = Inr (c_id c, d)"
proof -
  show "getOrCreateDirectConversation n a b d = Inr (c_id c, d)"
    using assms by (simp add: getOrCreateDirectConversation_def getOrCreateDirectConversation_resume_def findFirst_direct_def)
  have "is_direct_between b a = is_direct_between a b"
    by (rule ext) (rule is_direct_between_commute)
  then show "getOrCreateDirectConversation n b a d = Inr (c_id c, d)"
    using assms by (simp add: getOrCreateDirectConversation_def getOrCreateDirectConversation_resume_def findFirst_direct_def)
qed

lemma created_shape:
  assumes none: "find (is_direct_between a b) (conversations d) = None"
    and res: "getOrCreateDirectConversation n a b d = Inr (cid, d1)"
  shows "cid = n"
    and "d1 = d\<lparr>conversations := conversations d @ [\<lparr>c_id = n, c_isGroup = False, c_participants = [a, b]\<rparr>]\<rparr>"
  using assms
  by (auto simp: getOrCreateDirectConversation_def getOrCreateDirectConversation_resume_def findFirst_direct_def conversation_create_def Let_def
      split: if_splits)

lemma find_append_last:
  "find P xs = None \<Longrightarrow> P x \<Longrightarrow> find P (xs @ [x]) = Some x"
  by (induction xs) (auto split: if_splits)

lemma direct_count_found:
  assumes "find (is_direct_between a b) (conversations d) = Some c"
  shows "1 \<le> direct_count a b d"
proof -
  from assms have "c \<in> set (conversations d)" and "is_direct_between a b c"
    by (auto simp: find_Some_iff)
  then have "filter (is_direct_between a b) (conversations d) \<noteq> []"
    by (auto simp: filter_empty_conv)
  then show ?thesis by (simp add: direct_count_def Suc_le_eq)
qed

lemma getOrCreate_returns:
  assumes "user_exists a d" and "user_exists b d"
  shows "\<exists>cid d1. getOrCreateDirectConversation n a b d = Inr (cid, d1)"
  using assms
  by (auto simp: getOrCreateDirectConversation_def getOrCreateDirectConversation_resume_def findFirst_direct_def conversation_create_def Let_def
      split: option.splits)

text \<open>
  Calls that run one after the other agree: once a call has returned an id, a call
  with the two users in either order returns the same id and leaves the database as
  it is.
\<close>

lemma getOrCreate_twice:
  assumes res: "getOrCreateDirectConversation n a b d = Inr (cid, d1)"
  shows "getOrCreateDirectConversation n2 b a d1 = Inr (cid, d1)"
    and "getOrCreateDirectConversation n3 a b d1 = Inr (cid, d1)"
    and "direct_count a b d1 = max 1 (direct_count a b d)"
    and "direct_unique d \<Longrightarrow> direct_unique d1"
proof -
  let ?new = "\<lparr>c_id = n, c_isGroup = False, c_participants = [a, b]\<rparr>"
  have new_direct: "is_direct_between a b ?new" by (simp add: is_direct_between_def)
  show "getOrCreateDirectConversation n2 b a d1 = Inr (cid, d1)"
  proof (cases "find (is_direct_between a b) (conversations d)")
    case None
    note sh = created_shape[OF None res]
    have "find (is_direct_between a b) (conversations d1) = Some ?new"
      using find_append_last[OF None new_direct] by (simp add: sh)
    from found_unchanged(2)[OF this] show ?thesis by (simp add: sh)
  next
    case (Some c)
    with res found_unchanged[OF Some] show ?thesis by simp
  qed
  show "getOrCreateDirectConversation n3 a b d1 = Inr (cid, d1)"
  proof (cases "find (is_direct_between a b) (conversations d)")
    case None
    note sh = created_shape[OF None res]
    have "find (is_direct_between a b) (conversations d1) = Some ?new"
      using find_append_last[OF None new_direct] by (simp add: sh)
    from found_unchanged(1)[OF this] show ?thesis by (simp add: sh)
  next
    case (Some c)
    with res found_unchanged[OF Some] show ?thesis by simp
  qed
  show "direct_count a b d1 = max 1 (direct_count a b d)"
  proof (cases "find (is_direct_between a b) (conversations d)")
    case None
    note sh = created_shape[OF None res]
    from None have "direct_count a b d = 0" by (simp add: find_None_direct_count)
    then show ?thesis using new_direct by (simp add: sh direct_count_def)
  next
    case (Some c)
    with res found_unchanged(1)[OF Some, of n] have "d1 = d" by simp
    with direct_count_found[OF Some] show ?thesis by simp
  qed
  show "direct_unique d1" if uniq: "direct_unique d"
  proof (cases "find (is_direct_between a b) (conversations d)")
    case None
    note sh = created_shape[OF None res]
    from None have zero: "direct_count a b d = 0" by (simp add: find_None_direct_count)
    show ?thesis unfolding direct_unique_def
    proof (intro allI impI)
      fix x y :: string
      assume ne: "x \<noteq> y"
      show "direct_count x y d1 \<le> 1"
      proof (cases "is_direct_between x y ?new")
        case True
        with ne have "(x = a \<and> y = b) \<or> (x = b \<and> y = a)"
          by (auto simp: is_direct_between_def)
        then have "direct_count x y d = 0"
          using zero direct_count_commute[of a b d] by auto
        then show ?thesis by (simp add: sh direct_count_def)
      next
        case False
        then have "direct_count x y d1 = direct_count x y d"
          by (simp add: sh direct_count_def)
        with uniq ne show ?thesis by (simp add: direct_unique_def)
      qed
    qed
  next
    case (Some c)
    with res found_unchanged(1)[OF Some, of n] have "d1 = d" by simp
    with uniq show ?thesis by simp
  qed
qed

text \<open>
  Claim C2 does not hold of the code when two calls overlap. Alice's connection starts
  a direct conversation with Bob while Bob's starts one with Alice, on a database
  without conversations. Both calls of \<open>findFirst\<close> are answered before either call
  creates: both find nothing, both create, the two calls return different ids, and the
  two users share two direct conversations.
\<close>

theorem overlapping_calls_create_twice:
  "findFirst_direct ''u1'' ''u2'' two_users = None \<and>
   findFirst_direct ''u2'' ''u1'' two_users = None \<and>
   getOrCreateDirectConversation_resume None ''c1'' ''u1'' ''u2'' two_users = Inr (''c1'', one_direct) \<and>
   getOrCreateDirectConversation_resume None ''c2'' ''u2'' ''u1'' one_direct = Inr (''c2'', two_direct) \<and>
   direct_count ''u1'' ''u2'' two_direct = 2 \<and>
   direct_count ''u2'' ''u1'' two_direct = 2"
  by (simp add: findFirst_direct_def getOrCreateDirectConversation_resume_def
      conversation_create_def user_exists_def direct_count_def is_direct_between_def
      two_users_def one_direct_def two_direct_def Let_def)

section \<open>The socket handler\<close>

lemmas example_defs = two_users_def chat_db_def new_socket_def alice_socket_def
  alice_second_socket_def chat_server_def

lemmas handler_defs = completed_def rejected_def publishMessage_def emit_def falsy_def
  user_exists_def conversation_exists_def Let_def

text \<open>
  Claim C7. On a connection that has not processed \<open>authenticate\<close> (its \<open>userId\<close> is
  undefined), \<open>send_message\<close> and \<open>start_direct\<close> return at once: the handler ends
  without a failure, and the socket and the shared state (database, presence cache,
  published and emitted events, connections) are what they were.
\<close>

theorem unauthenticated_events_dropped:
  assumes "userId sock = None"
  shows "on_send_message now newId conversationId content sock srv = completed sock srv \<and>
         on_start_direct newId' targetUserId sock srv = completed sock srv \<and>
         h_thrown (completed sock srv) = None \<and>
         h_server (completed sock srv) = srv \<and> h_socket (completed sock srv) = sock"
  using assms by (simp add: on_send_message_def on_start_direct_def completed_def)

theorem unauthenticated_events_dropped_witness:
  "userId (new_socket ''s3'') = None \<and>
   h_server (on_send_message 7 ''m1'' ''c1'' ''hi'' (new_socket ''s3'') chat_server) = chat_server \<and>
   h_server (on_start_direct ''c9'' ''u2'' (new_socket ''s3'') chat_server) = chat_server \<and>
   h_thrown (on_send_message 7 ''m1'' ''c1'' ''hi'' (new_socket ''s3'') chat_server) = None \<and>
   h_thrown (on_start_direct ''c9'' ''u2'' (new_socket ''s3'') chat_server) = None"
proof -
  have n: "userId (new_socket ''s3'') = None" by (simp add: new_socket_def)
  from unauthenticated_events_dropped[OF n, of 7 "''m1''" "''c1''" "''hi''" chat_server "''c9''" "''u2''"] n
  show ?thesis by simp
qed

text \<open>
  Claim C4, as stated, fails: a second \<open>authenticate\<close> with another identity is not
  ignored. Here a connection authenticates as Alice (\<open>u1\<close>) and then as Bob (\<open>u2\<close>), and
  is bound to Bob.
\<close>

theorem authenticate_rebinds_counterexample:
  "userId (h_socket (on_authenticate 1 1 ''u1'' ''Alice'' (new_socket ''s3'') chat_server)) = Some ''u1'' \<and>
   userId (h_socket (on_authenticate 2 2 ''u2'' ''Bob''
      (h_socket (on_authenticate 1 1 ''u1'' ''Alice'' (new_socket ''s3'') chat_server))
      (h_server (on_authenticate 1 1 ''u1'' ''Alice'' (new_socket ''s3'') chat_server)))) = Some ''u2'' \<and>
   username (h_socket (on_authenticate 2 2 ''u2'' ''Bob''
      (h_socket (on_authenticate 1 1 ''u1'' ''Alice'' (new_socket ''s3'') chat_server))
      (h_server (on_authenticate 1 1 ''u1'' ''Alice'' (new_socket ''s3'') chat_server)))) = Some ''Bob''"
  by (simp add: on_authenticate_def handler_defs user_update_def split: sum.splits)

text \<open>
  The handler assigns \<open>socket.userId\<close> and \<open>socket.username\<close> before anything else and
  without a test.
\<close>

lemma on_authenticate_socket:
  "h_socket (on_authenticate now t uid uname sock srv) = sock\<lparr>userId := Some uid, username := Some uname\<rparr>"
  by (simp add: on_authenticate_def handler_defs split: sum.splits)

text \<open>
  Claim C4, amended. After two \<open>authenticate\<close> events on the same connection, the
  connection is bound to the \<open>userId\<close> and \<open>username\<close> of the second one, whatever the
  first one carried; the other fields of the socket are unchanged.
\<close>

theorem authenticate_rebinds:
  "h_socket (on_authenticate now2 t2 uid2 uname2
      (h_socket (on_authenticate now1 t1 uid1 uname1 sock srv))
      (h_server (on_authenticate now1 t1 uid1 uname1 sock srv)))
   = sock\<lparr>userId := Some uid2, username := Some uname2\<rparr>"
  by (simp add: on_authenticate_socket)

text \<open>
  Orders the history query may answer with. \<open>by_time_desc\<close> is one; any of them puts
  rows with increasing creation times in the reverse order.
\<close>

lemma descending_by_time_desc: "descending by_time_desc"
proof -
  have "sorted (rev (map m_createdAt (by_time_desc rows)))" for rows
  proof -
    have "sorted (map (\<lambda>m. - int (m_createdAt m)) (by_time_desc rows))"
      unfolding by_time_desc_def by (rule sorted_sort_key)
    then have "sorted_wrt (\<lambda>a b. m_createdAt b \<le> m_createdAt a) (by_time_desc rows)"
      by (simp add: sorted_map)
    then show ?thesis
      by (simp add: sorted_wrt_rev sorted_wrt_map sorted_map flip: rev_map)
  qed
  moreover have "mset (by_time_desc rows) = mset rows" for rows
    by (simp add: by_time_desc_def)
  ultimately show ?thesis by (simp add: descending_def)
qed

lemma descending_sorted_wrt:
  assumes "descending nf"
  shows "sorted_wrt (\<lambda>a b. m_createdAt b \<le> m_createdAt a) (nf rows)"
proof -
  from assms have "sorted (rev (map m_createdAt (nf rows)))" by (simp add: descending_def)
  then show ?thesis by (simp add: sorted_wrt_rev sorted_wrt_map sorted_map flip: rev_map)
qed

lemma descending_strict:
  assumes d: "descending nf" and s: "sorted_wrt (<) (map m_createdAt rows)"
  shows "nf rows = rev rows"
proof -
  let ?ys = "rev (nf rows)"
  from d have ms: "mset ?ys = mset rows" by (simp add: descending_def)
  from d have so: "sorted (map m_createdAt ?ys)" by (simp add: descending_def rev_map)
  from s have so': "sorted (map m_createdAt rows)" and di': "distinct (map m_createdAt rows)"
    by (simp_all add: strict_sorted_iff)
  from ms have mk: "mset (map m_createdAt ?ys) = mset (map m_createdAt rows)"
    by (metis mset_map)
  then have di: "distinct (map m_createdAt ?ys)"
    using di' by (metis mset_eq_imp_distinct_iff)
  from mk have "set (map m_createdAt ?ys) = set (map m_createdAt rows)"
    by (rule mset_eq_setD)
  with so so' di di' have keys: "map m_createdAt ?ys = map m_createdAt rows"
    by (metis sorted_distinct_set_unique)
  from ms have "set ?ys = set rows" by (rule mset_eq_setD)
  moreover from di' have "inj_on m_createdAt (set rows)" by (simp add: distinct_map)
  ultimately have "inj_on m_createdAt (set ?ys \<union> set rows)" by simp
  with keys have "?ys = rows" by (simp add: inj_on_map_eq_map)
  then show ?thesis by (metis rev_rev_ident)
qed

text \<open>
  The page without a cursor: the newest rows of the conversation, at most \<open>limit\<close> of
  them, oldest first, each with its sender.
\<close>

lemma page_is_newest:
  assumes d: "descending newest_first"
  shows "\<exists>rows rest.
           getConversationMessages newest_first cid limit None d = map (with_sender d) rows \<and>
           mset rows + mset rest = mset (conversation_rows cid d) \<and>
           length rows = min limit (length (conversation_rows cid d)) \<and>
           sorted (map m_createdAt rows) \<and>
           (\<forall>old \<in> set rest. \<forall>m \<in> set rows. m_createdAt old \<le> m_createdAt m)"
proof -
  let ?xs = "newest_first (conversation_rows cid d)"
  let ?rows = "rev (take limit ?xs)" and ?rest = "drop limit ?xs"
  from d have ms: "mset ?xs = mset (conversation_rows cid d)" by (simp add: descending_def)
  have 1: "getConversationMessages newest_first cid limit None d = map (with_sender d) ?rows"
    by (simp add: getConversationMessages_def after_cursor_def rev_map)
  have "mset ?rows + mset ?rest = mset (take limit ?xs @ drop limit ?xs)"
    by (simp only: mset_append mset_rev)
  then have 2: "mset ?rows + mset ?rest = mset (conversation_rows cid d)"
    using ms by simp
  have 3: "length ?rows = min limit (length (conversation_rows cid d))"
    using mset_eq_length[OF ms] by simp
  have sw: "sorted_wrt (\<lambda>a b. m_createdAt b \<le> m_createdAt a) ?xs"
    using descending_sorted_wrt[OF d] .
  then have "sorted_wrt (\<lambda>a b. m_createdAt b \<le> m_createdAt a) (take limit ?xs @ drop limit ?xs)"
    by simp
  then have parts: "sorted_wrt (\<lambda>a b. m_createdAt b \<le> m_createdAt a) (take limit ?xs)"
    and cross: "\<forall>a \<in> set (take limit ?xs). \<forall>b \<in> set (drop limit ?xs). m_createdAt b \<le> m_createdAt a"
    unfolding sorted_wrt_append by blast+
  from parts have 4: "sorted (map m_createdAt ?rows)"
    by (simp add: sorted_map sorted_wrt_rev)
  from cross have 5: "\<forall>old \<in> set ?rest. \<forall>m \<in> set ?rows. m_createdAt old \<le> m_createdAt m"
    by simp
  show ?thesis using 1 2 3 4 5 by blast
qed

text \<open>
  Claim C10. \<open>join_conversation\<close> never looks at the identity of the connection. For
  every socket, bound to a user or not, and every conversation id, the handler ends
  without a failure, the socket has joined the room, nothing else changes, and one
  \<open>message_history\<close> event is emitted to that socket; the event is the same whatever
  identity the socket carries. The event holds rows of that conversation, each with its
  sender: as many as the conversation has, up to 50; the ones left out are no newer
  than the ones in the page; and the page is in the order of creation, oldest first.
\<close>

theorem join_conversation_unchecked:
  assumes "descending newest_first"
  shows "\<exists>rows rest.
     on_join_conversation newest_first cid sock srv =
       completed (sock\<lparr>rooms := insert cid (rooms sock)\<rparr>)
         (emit (sock_id sock) (MessageHistory cid (map (with_sender (db srv)) rows)) srv) \<and>
     emitted (h_server (on_join_conversation newest_first cid (sock\<lparr>userId := v, username := w\<rparr>) srv)) =
       emitted srv @ [(sock_id sock, MessageHistory cid (map (with_sender (db srv)) rows))] \<and>
     mset rows + mset rest = mset (conversation_rows cid (db srv)) \<and>
     length rows = min 50 (length (conversation_rows cid (db srv))) \<and>
     sorted (map m_createdAt rows) \<and>
     (\<forall>old \<in> set rest. \<forall>m \<in> set rows. m_createdAt old \<le> m_createdAt m)"
proof -
  from page_is_newest[OF assms, of cid default_limit "db srv"]
  obtain rows rest where
    p: "getConversationMessages newest_first cid default_limit None (db srv) =
          map (with_sender (db srv)) rows"
    and q: "mset rows + mset rest = mset (conversation_rows cid (db srv))"
      "length rows = min default_limit (length (conversation_rows cid (db srv)))"
      "sorted (map m_createdAt rows)"
      "\<forall>old \<in> set rest. \<forall>m \<in> set rows. m_createdAt old \<le> m_createdAt m"
    by blast
  have 1: "on_join_conversation newest_first cid sock srv =
       completed (sock\<lparr>rooms := insert cid (rooms sock)\<rparr>)
         (emit (sock_id sock) (MessageHistory cid (map (with_sender (db srv)) rows)) srv)"
    by (simp add: on_join_conversation_def p)
  have 2: "emitted (h_server (on_join_conversation newest_first cid (sock\<lparr>userId := v, username := w\<rparr>) srv)) =
       emitted srv @ [(sock_id sock, MessageHistory cid (map (with_sender (db srv)) rows))]"
    by (simp add: on_join_conversation_def p completed_def emit_def)
  from q(2) have 3: "length rows = min 50 (length (conversation_rows cid (db srv)))"
    by (simp add: default_limit_def)
  show ?thesis using 1 2 3 q(1,3,4) by blast
qed

lemma history_rows:
  "conversation_rows ''c1'' (db history_server) = [hi_row, there_row]"
  by (simp add: conversation_rows_def history_server_def hi_row_def there_row_def
      elsewhere_row_def new_row_def)

lemma history_page:
  "getConversationMessages by_time_desc ''c1'' default_limit None (db history_server) =
     [with_sender (db history_server) hi_row, with_sender (db history_server) there_row]"
proof -
  have k: "m_createdAt hi_row = 1" "m_createdAt there_row = 3"
    by (simp_all add: hi_row_def there_row_def new_row_def)
  have "by_time_desc [hi_row, there_row] = [there_row, hi_row]"
    by (simp add: by_time_desc_def k)
  then show ?thesis
    by (simp add: getConversationMessages_def history_rows after_cursor_def default_limit_def)
qed

theorem join_conversation_unchecked_witness:
  "descending by_time_desc \<and> userId (new_socket ''s3'') = None \<and>
   conversation_rows ''c1'' (db history_server) = [hi_row, there_row] \<and>
   (\<exists>rows rest.
      on_join_conversation by_time_desc ''c1'' (new_socket ''s3'') history_server =
        completed ((new_socket ''s3'')\<lparr>rooms := {''c1''}\<rparr>)
          (emit ''s3'' (MessageHistory ''c1'' (map (with_sender (db history_server)) rows))
             history_server) \<and>
      mset rows + mset rest = mset [hi_row, there_row] \<and> length rows = 2) \<and>
   on_join_conversation by_time_desc ''c1'' (new_socket ''s3'') history_server =
     completed ((new_socket ''s3'')\<lparr>rooms := {''c1''}\<rparr>)
       (emit ''s3''
          (MessageHistory ''c1''
             [with_sender (db history_server) hi_row, with_sender (db history_server) there_row])
          history_server) \<and>
   map m_content [with_sender (db history_server) hi_row, with_sender (db history_server) there_row] =
     [''hi'', ''there'']"
proof -
  from join_conversation_unchecked[OF descending_by_time_desc,
      of "''c1''" "new_socket ''s3''" history_server None None]
  obtain rows rest where
    j: "on_join_conversation by_time_desc ''c1'' (new_socket ''s3'') history_server =
       completed ((new_socket ''s3'')\<lparr>rooms := insert ''c1'' (rooms (new_socket ''s3''))\<rparr>)
         (emit (sock_id (new_socket ''s3''))
            (MessageHistory ''c1'' (map (with_sender (db history_server)) rows)) history_server)"
    and m: "mset rows + mset rest = mset (conversation_rows ''c1'' (db history_server))"
    and l: "length rows = min 50 (length (conversation_rows ''c1'' (db history_server)))"
    by blast
  have n: "rooms (new_socket ''s3'') = {}" "sock_id (new_socket ''s3'') = ''s3''"
    "userId (new_socket ''s3'') = None"
    by (simp_all add: new_socket_def)
  from j have 1: "on_join_conversation by_time_desc ''c1'' (new_socket ''s3'') history_server =
        completed ((new_socket ''s3'')\<lparr>rooms := {''c1''}\<rparr>)
          (emit ''s3'' (MessageHistory ''c1'' (map (with_sender (db history_server)) rows))
             history_server)"
    by (simp add: n)
  from m l have 2: "mset rows + mset rest = mset [hi_row, there_row]" "length rows = 2"
    by (simp_all add: history_rows)
  have 3: "on_join_conversation by_time_desc ''c1'' (new_socket ''s3'') history_server =
     completed ((new_socket ''s3'')\<lparr>rooms := {''c1''}\<rparr>)
       (emit ''s3''
          (MessageHistory ''c1''
             [with_sender (db history_server) hi_row, with_sender (db history_server) there_row])
          history_server)"
    by (simp add: on_join_conversation_def history_page n)
  have 4: "map m_content [with_sender (db history_server) hi_row,
        with_sender (db history_server) there_row] = [''hi'', ''there'']"
    by (simp add: with_sender_def message.defs hi_row_def there_row_def new_row_def)
  show ?thesis using descending_by_time_desc n(3) history_rows 1 2 3 4 by blast
qed

text \<open>
  \<open>send_message\<close> on a connection bound to an existing user, for an existing
  conversation: the row is created and the envelope is published. The content is
  passed on as it is.
\<close>

lemma on_send_message_authenticated:
  assumes "userId sock = Some uid" and "uid \<noteq> []"
    and "user_exists uid (db srv)" and "conversation_exists cid (db srv)"
  shows "on_send_message now newId cid content sock srv =
           completed sock
             (srv\<lparr>db := (db srv)\<lparr>messages := messages (db srv) @ [new_row now newId uid cid content]\<rparr>,
                  published := published srv @
                    [(NEW_MESSAGE, MessageEnvelope cid
                        (with_sender (db srv) (new_row now newId uid cid content)))]\<rparr>)"
  using assms
  by (simp add: on_send_message_def createMessage_def falsy_def Let_def publishMessage_def
      new_row_def)

text \<open>
  Claim C3, amended. The handler does not inspect the content. For a connection bound
  to a non-empty \<open>userId\<close> of an existing user and an existing conversation,
  \<open>send_message\<close> with any content, the empty one included, ends without a failure,
  persists one message with exactly that content and publishes one \<open>new_message\<close>
  envelope carrying it.
\<close>

theorem send_message_content_unchecked:
  assumes "userId sock = Some uid" and "uid \<noteq> []"
    and "user_exists uid (db srv)" and "conversation_exists cid (db srv)"
  shows "h_thrown (on_send_message now newId cid content sock srv) = None \<and>
         messages (db (h_server (on_send_message now newId cid content sock srv))) =
           messages (db srv) @ [new_row now newId uid cid content] \<and>
         published (h_server (on_send_message now newId cid content sock srv)) =
           published srv @
             [(NEW_MESSAGE, MessageEnvelope cid
                 (with_sender (db srv) (new_row now newId uid cid content)))] \<and>
         m_content (new_row now newId uid cid content) = content"
  using on_send_message_authenticated[OF assms, of now newId content]
  by (simp add: completed_def new_row_def)

theorem send_message_content_unchecked_witness:
  "userId alice_socket = Some ''u1'' \<and> user_exists ''u1'' (db chat_server) \<and>
   conversation_exists ''c1'' (db chat_server) \<and>
   h_thrown (on_send_message 7 ''m1'' ''c1'' '' '' alice_socket chat_server) = None \<and>
   map m_content (messages (db (h_server (on_send_message 7 ''m1'' ''c1'' '' '' alice_socket chat_server)))) = ['' ''] \<and>
   map fst (published (h_server (on_send_message 7 ''m1'' ''c1'' '' '' alice_socket chat_server))) = [''new_message'']"
proof -
  have a: "userId alice_socket = Some ''u1''" by (simp add: example_defs)
  have b: "''u1'' \<noteq> []" by simp
  have c: "user_exists ''u1'' (db chat_server)" by (simp add: example_defs user_exists_def)
  have d: "conversation_exists ''c1'' (db chat_server)"
    by (simp add: example_defs conversation_exists_def)
  have e: "messages (db chat_server) = []" "published chat_server = []"
    by (simp_all add: example_defs)
  from send_message_content_unchecked[OF a b c d, of 7 "''m1''" "'' ''"] a c d e
  show ?thesis by (simp add: new_row_def NEW_MESSAGE_def)
qed

text \<open>
  Claim C3, as stated, fails: Alice's connection sends the empty content to
  conversation \<open>c1\<close>; a message with empty content is persisted and a \<open>new_message\<close>
  envelope is published.
\<close>

theorem send_empty_message_counterexample:
  "userId alice_socket = Some ''u1'' \<and>
   map m_content (messages (db (h_server (on_send_message 7 ''m1'' ''c1'' [] alice_socket chat_server)))) = [[]] \<and>
   map fst (published (h_server (on_send_message 7 ''m1'' ''c1'' [] alice_socket chat_server))) = [''new_message''] \<and>
   messages (db chat_server) = [] \<and> published chat_server = []"
proof -
  have a: "userId alice_socket = Some ''u1''" by (simp add: example_defs)
  have b: "''u1'' \<noteq> []" by simp
  have c: "user_exists ''u1'' (db chat_server)" by (simp add: example_defs user_exists_def)
  have d: "conversation_exists ''c1'' (db chat_server)"
    by (simp add: example_defs conversation_exists_def)
  have e: "messages (db chat_server) = []" "published chat_server = []"
    by (simp_all add: example_defs)
  from on_send_message_authenticated[OF a b c d, of 7 "''m1''" "[]"] a e
  show ?thesis by (simp add: new_row_def NEW_MESSAGE_def completed_def)
qed

text \<open>\<open>disconnect\<close> on a connection bound to an existing user.\<close>

lemma on_disconnect_authenticated:
  assumes "userId sock = Some uid" and "uid \<noteq> []" and "user_exists uid (db srv)"
  shows "on_disconnect now t sock srv =
     completed sock
       (srv\<lparr>db := (db srv)\<lparr>users :=
                 map (\<lambda>u. if u_id u = uid then u\<lparr>u_isOnline := False, u_lastSeen := now\<rparr> else u)
                   (users (db srv))\<rparr>,
            redis := setUserOffline t uid (redis srv),
            published := published srv @ [(USER_OFFLINE, UserEnvelope uid)]\<rparr>)"
  using assms
  by (simp add: on_disconnect_def user_update_def falsy_def publishMessage_def)

text \<open>
  Claim C6. The \<open>disconnect\<close> of a connection bound to a user (a non-empty \<open>userId\<close>
  whose user row exists) ends without a failure, removes the \<open>userId\<close> from the online
  set, so that \<open>getOnlineUsers\<close> no longer contains it, sets \<open>isOnline = false\<close> and
  \<open>lastSeen = now\<close> in the row of that user and in no other row, and appends exactly one
  \<open>user_offline\<close> envelope for the user to what was published. The \<open>disconnect\<close> of
  a connection that never authenticated changes nothing.
\<close>

theorem disconnect_marks_offline:
  "(userId sock = Some uid \<and> uid \<noteq> [] \<and> user_exists uid (db srv) \<longrightarrow>
      h_thrown (on_disconnect now t sock srv) = None \<and>
      uid \<notin> getOnlineUsers (redis (h_server (on_disconnect now t sock srv))) \<and>
      online_users (redis (h_server (on_disconnect now t sock srv))) =
        online_users (redis srv) - {uid} \<and>
      users (db (h_server (on_disconnect now t sock srv))) =
        map (\<lambda>u. if u_id u = uid then u\<lparr>u_isOnline := False, u_lastSeen := now\<rparr> else u)
          (users (db srv)) \<and>
      user_exists uid (db (h_server (on_disconnect now t sock srv))) \<and>
      published (h_server (on_disconnect now t sock srv)) =
        published srv @ [(USER_OFFLINE, UserEnvelope uid)]) \<and>
   (userId sock = None \<longrightarrow> on_disconnect now t sock srv = completed sock srv \<and>
      h_server (completed sock srv) = srv)"
proof (intro conjI impI)
  assume "userId sock = None"
  then show "on_disconnect now t sock srv = completed sock srv"
    by (simp add: on_disconnect_def)
  show "h_server (completed sock srv) = srv" by (simp add: completed_def)
next
  assume a: "userId sock = Some uid \<and> uid \<noteq> [] \<and> user_exists uid (db srv)"
  then have eq: "on_disconnect now t sock srv =
     completed sock
       (srv\<lparr>db := (db srv)\<lparr>users :=
                 map (\<lambda>u. if u_id u = uid then u\<lparr>u_isOnline := False, u_lastSeen := now\<rparr> else u)
                   (users (db srv))\<rparr>,
            redis := setUserOffline t uid (redis srv),
            published := published srv @ [(USER_OFFLINE, UserEnvelope uid)]\<rparr>)"
    using on_disconnect_authenticated by blast
  show "h_thrown (on_disconnect now t sock srv) = None"
    by (simp add: eq completed_def)
  show "uid \<notin> getOnlineUsers (redis (h_server (on_disconnect now t sock srv)))"
    by (simp add: eq completed_def getOnlineUsers_def setUserOffline_def)
  show "online_users (redis (h_server (on_disconnect now t sock srv))) =
        online_users (redis srv) - {uid}"
    by (simp add: eq completed_def setUserOffline_def)
  show "users (db (h_server (on_disconnect now t sock srv))) =
        map (\<lambda>u. if u_id u = uid then u\<lparr>u_isOnline := False, u_lastSeen := now\<rparr> else u)
          (users (db srv))"
    by (simp add: eq completed_def)
  show "published (h_server (on_disconnect now t sock srv)) =
        published srv @ [(USER_OFFLINE, UserEnvelope uid)]"
    by (simp add: eq completed_def)
  have "map u_id (map (\<lambda>u. if u_id u = uid then u\<lparr>u_isOnline := False, u_lastSeen := now\<rparr> else u)
          (users (db srv))) = map u_id (users (db srv))"
    by (induction "users (db srv)") auto
  then have "u_id ` set (map (\<lambda>u. if u_id u = uid then u\<lparr>u_isOnline := False, u_lastSeen := now\<rparr> else u)
          (users (db srv))) = u_id ` set (users (db srv))"
    by (metis set_map)
  with a show "user_exists uid (db (h_server (on_disconnect now t sock srv)))"
    by (simp add: eq completed_def user_exists_def)
qed

theorem disconnect_marks_offline_witness:
  "userId alice_socket = Some ''u1'' \<and> user_exists ''u1'' (db chat_server) \<and>
   ''u1'' \<in> getOnlineUsers (redis chat_server) \<and>
   ''u1'' \<notin> getOnlineUsers (redis (h_server (on_disconnect 9 9 alice_socket chat_server))) \<and>
   published (h_server (on_disconnect 9 9 alice_socket chat_server)) =
     [(''user_offline'', UserEnvelope ''u1'')] \<and>
   map u_isOnline (users (db (h_server (on_disconnect 9 9 alice_socket chat_server)))) = [False, False] \<and>
   map u_lastSeen (users (db (h_server (on_disconnect 9 9 alice_socket chat_server)))) = [9, 0] \<and>
   userId (new_socket ''s3'') = None \<and>
   h_server (on_disconnect 9 9 (new_socket ''s3'') chat_server) = chat_server"
proof -
  have a: "userId alice_socket = Some ''u1''" by (simp add: example_defs)
  have c: "user_exists ''u1'' (db chat_server)" by (simp add: example_defs user_exists_def)
  have n: "userId (new_socket ''s3'') = None" by (simp add: new_socket_def)
  have e: "published chat_server = []" "''u1'' \<in> getOnlineUsers (redis chat_server)"
    "users (db chat_server) = users two_users"
    by (simp_all add: example_defs getOnlineUsers_def)
  from disconnect_marks_offline[of alice_socket "''u1''" chat_server 9 9] a c
  have 1: "''u1'' \<notin> getOnlineUsers (redis (h_server (on_disconnect 9 9 alice_socket chat_server)))"
    and 2: "published (h_server (on_disconnect 9 9 alice_socket chat_server)) =
        published chat_server @ [(USER_OFFLINE, UserEnvelope ''u1'')]"
    and 3: "users (db (h_server (on_disconnect 9 9 alice_socket chat_server))) =
        map (\<lambda>u. if u_id u = ''u1'' then u\<lparr>u_isOnline := False, u_lastSeen := 9\<rparr> else u)
          (users (db chat_server))"
    by simp_all
  from disconnect_marks_offline[of "new_socket ''s3''" "''u1''" chat_server 9 9] n
  have 4: "h_server (on_disconnect 9 9 (new_socket ''s3'') chat_server) = chat_server"
    by simp
  show ?thesis using a c n e 1 4
    by (simp add: 2 3 USER_OFFLINE_def two_users_def)
qed

lemma find_filter_keep:
  "find P xs = Some x \<Longrightarrow> (\<And>y. P y \<Longrightarrow> Q y) \<Longrightarrow> find P (filter Q xs) = Some x"
  by (induction xs) (auto split: if_splits)

lemma find_filter_gone:
  "(\<And>y. P y \<Longrightarrow> \<not> Q y) \<Longrightarrow> find P (filter Q xs) = None"
  by (induction xs) auto

text \<open>
  Claim C9. Two different connections are bound to the same user. When one of them
  disconnects, the user is removed from the online set and one \<open>user_offline\<close>
  envelope is published, although the other connection is still registered and still
  bound to that user.
\<close>

theorem presence_not_reference_counted:
  assumes sa: "find (\<lambda>s. sock_id s = a) (connections srv) = Some sa"
    and sb: "find (\<lambda>s. sock_id s = b) (connections srv) = Some sb"
    and ne: "a \<noteq> b"
    and ua: "userId sa = Some uid" and ub: "userId sb = Some uid"
    and nonempty: "uid \<noteq> []" and ex: "user_exists uid (db srv)"
  shows "\<exists>srv'. deliver k a Disconnect srv = Some (srv', None) \<and>
           uid \<notin> getOnlineUsers (redis srv') \<and>
           published srv' = published srv @ [(USER_OFFLINE, UserEnvelope uid)] \<and>
           find (\<lambda>s. sock_id s = a) (connections srv') = None \<and>
           find (\<lambda>s. sock_id s = b) (connections srv') = Some sb \<and>
           userId sb = Some uid"
proof -
  from sa have ida: "sock_id sa = a" by (auto simp: find_Some_iff)
  let ?srv1 = "srv\<lparr>db := (db srv)\<lparr>users :=
                 map (\<lambda>u. if u_id u = uid then u\<lparr>u_isOnline := False, u_lastSeen := date_now k\<rparr> else u)
                   (users (db srv))\<rparr>,
            redis := setUserOffline (cache_now k) uid (redis srv),
            published := published srv @ [(USER_OFFLINE, UserEnvelope uid)]\<rparr>"
  let ?srv' = "?srv1\<lparr>connections := filter (\<lambda>s. sock_id s \<noteq> a) (connections srv)\<rparr>"
  have h: "on_disconnect (date_now k) (cache_now k) sa srv = completed sa ?srv1"
    using on_disconnect_authenticated[OF ua nonempty ex] by simp
  have d: "deliver k a Disconnect srv = Some (?srv', None)"
    using sa by (simp add: deliver_def h completed_def store_socket_def ida Let_def)
  have gone: "find (\<lambda>s. sock_id s = a) (connections ?srv') = None"
    by (simp add: find_filter_gone)
  have kept: "find (\<lambda>s. sock_id s = b) (connections ?srv') = Some sb"
    using find_filter_keep[OF sb, of "\<lambda>s. sock_id s \<noteq> a"] ne by simp
  have off: "uid \<notin> getOnlineUsers (redis ?srv')"
    by (simp add: getOnlineUsers_def setUserOffline_def)
  have pub: "published ?srv' = published srv @ [(USER_OFFLINE, UserEnvelope uid)]"
    by simp
  show ?thesis
    using d gone kept off pub ub by blast
qed

theorem presence_not_reference_counted_witness:
  "\<exists>srv'. find (\<lambda>s. sock_id s = ''s1'') (connections chat_server) = Some alice_socket \<and>
     find (\<lambda>s. sock_id s = ''s2'') (connections chat_server) = Some alice_second_socket \<and>
     userId alice_socket = Some ''u1'' \<and> userId alice_second_socket = Some ''u1'' \<and>
     user_exists ''u1'' (db chat_server) \<and> ''u1'' \<in> getOnlineUsers (redis chat_server) \<and>
     deliver nine ''s1'' Disconnect chat_server
       = Some (srv', None) \<and>
     ''u1'' \<notin> getOnlineUsers (redis srv') \<and>
     published srv' = [(''user_offline'', UserEnvelope ''u1'')] \<and>
     find (\<lambda>s. sock_id s = ''s2'') (connections srv') = Some alice_second_socket"
proof -
  have sa: "find (\<lambda>s. sock_id s = ''s1'') (connections chat_server) = Some alice_socket"
    by (simp add: example_defs)
  have sb: "find (\<lambda>s. sock_id s = ''s2'') (connections chat_server) = Some alice_second_socket"
    by (simp add: example_defs)
  have ne: "''s1'' \<noteq> ''s2''" by simp
  have ua: "userId alice_socket = Some ''u1''" and ub: "userId alice_second_socket = Some ''u1''"
    by (simp_all add: example_defs)
  have nonempty: "''u1'' \<noteq> []" by simp
  have ex: "user_exists ''u1'' (db chat_server)" by (simp add: example_defs user_exists_def)
  have e: "published chat_server = []" "''u1'' \<in> getOnlineUsers (redis chat_server)"
    by (simp_all add: example_defs getOnlineUsers_def)
  from presence_not_reference_counted[OF sa sb ne ua ub nonempty ex,
      of nine]
  obtain srv' where
    "deliver nine ''s1'' Disconnect chat_server
       = Some (srv', None)"
    "''u1'' \<notin> getOnlineUsers (redis srv')"
    "published srv' = published chat_server @ [(USER_OFFLINE, UserEnvelope ''u1'')]"
    "find (\<lambda>s. sock_id s = ''s2'') (connections srv') = Some alice_second_socket"
    by blast
  then show ?thesis using sa sb ua ub ex e
    by (intro exI[of _ srv']) (simp add: USER_OFFLINE_def)
qed

section \<open>Message history\<close>

lemma send_all_db:
  assumes "userId sock = Some uid" and "uid \<noteq> []"
    and "user_exists uid (db srv)" and "conversation_exists cid (db srv)"
  shows "db (send_all sends cid sock srv) =
           (db srv)\<lparr>messages := messages (db srv) @ map (row_of uid cid) sends\<rparr>"
  using assms
proof (induction sends arbitrary: srv)
  case Nil
  then show ?case by simp
next
  case (Cons s sends)
  obtain now newId content where s: "s = (now, newId, content)" by (cases s) auto
  let ?srv1 = "h_server (on_send_message now newId cid content sock srv)"
  have step: "db ?srv1 = (db srv)\<lparr>messages := messages (db srv) @ [new_row now newId uid cid content]\<rparr>"
    using on_send_message_authenticated[OF Cons.prems, of now newId content]
    by (simp add: completed_def)
  have ex: "user_exists uid (db ?srv1)" "conversation_exists cid (db ?srv1)"
    using Cons.prems by (simp_all add: step user_exists_def conversation_exists_def)
  from Cons.IH[OF Cons.prems(1,2) ex]
  show ?case by (simp add: s step)
qed

lemma filter_rows: "filter (\<lambda>m. m_conversationId m = cid) (map (row_of uid cid) sends) = map (row_of uid cid) sends"
  by (induction sends) (auto simp: new_row_def)

lemma createdAt_rows: "map m_createdAt (map (row_of uid cid) sends) = map fst sends"
  by (induction sends) (auto simp: new_row_def)

lemma content_rows: "map m_content (map (row_of uid cid) sends) = map (\<lambda>s. snd (snd s)) sends"
  by (induction sends) (auto simp: new_row_def)

lemma m_content_with_sender: "m_content (with_sender d m) = m_content m"
  by (simp add: with_sender_def message.defs)

lemma page_contents:
  assumes "descending newest_first"
    and "filter (\<lambda>m. m_conversationId m = cid) (messages d) = rows"
    and "sorted_wrt (<) (map m_createdAt rows)"
  shows "map m_content (getConversationMessages newest_first cid limit None d) =
           drop (length rows - limit) (map m_content rows)"
proof -
  have "newest_first (conversation_rows cid d) = rev rows"
    using descending_strict[OF assms(1,3)] assms(2) by (simp add: conversation_rows_def)
  then have "getConversationMessages newest_first cid limit None d =
               map (with_sender d) (drop (length rows - limit) rows)"
    by (simp add: getConversationMessages_def after_cursor_def take_rev rev_map)
  then show ?thesis
    by (simp add: drop_map m_content_with_sender o_def)
qed

lemma history_after_sends:
  assumes ord: "descending newest_first"
    and auth: "userId sock = Some uid" "uid \<noteq> []"
    and ex: "user_exists uid (db srv)" "conversation_exists cid (db srv)"
    and fresh: "filter (\<lambda>m. m_conversationId m = cid) (messages (db srv)) = []"
    and times: "sorted_wrt (<) (map fst sends)"
  shows "map m_content (getConversationMessages newest_first cid limit None (db (send_all sends cid sock srv))) =
           drop (length sends - limit) (contents_of sends)"
proof -
  let ?d = "db (send_all sends cid sock srv)"
  have d: "?d = (db srv)\<lparr>messages := messages (db srv) @ map (row_of uid cid) sends\<rparr>"
    using send_all_db[OF auth ex] .
  have f: "filter (\<lambda>m. m_conversationId m = cid) (messages ?d) = map (row_of uid cid) sends"
    by (simp add: d fresh filter_rows)
  have s: "sorted_wrt (<) (map m_createdAt (map (row_of uid cid) sends))"
    using times by (simp only: createdAt_rows)
  from page_contents[OF ord f s, of limit] show ?thesis
    by (simp add: content_rows contents_of_def del: map_map)
qed

text \<open>
  Claim C5, amended. A connection bound to an existing user sends N messages, one after
  the other and with increasing creation times, into an existing conversation that had
  no messages. Whatever order the database gives to rows with equal creation times,
  the history returned by \<open>getConversationMessages\<close> with a limit holds
  the contents of the last \<open>min N limit\<close> of them, oldest first; when N is at most the
  limit (50 unless the caller gives another), it is exactly the contents in the order
  they were sent.
\<close>

theorem history_is_last_page:
  assumes "descending newest_first"
    and "userId sock = Some uid" and "uid \<noteq> []"
    and "user_exists uid (db srv)" and "conversation_exists cid (db srv)"
    and "filter (\<lambda>m. m_conversationId m = cid) (messages (db srv)) = []"
    and "sorted_wrt (<) (map fst sends)"
  shows "map m_content (getConversationMessages newest_first cid limit None (db (send_all sends cid sock srv))) =
           drop (length sends - limit) (contents_of sends) \<and>
         (length sends \<le> limit \<longrightarrow>
            map m_content (getConversationMessages newest_first cid limit None (db (send_all sends cid sock srv))) =
              contents_of sends)"
  using history_after_sends[OF assms, of limit] by simp

theorem history_is_last_page_witness:
  "descending by_time_desc \<and> userId alice_socket = Some ''u1'' \<and> user_exists ''u1'' (db chat_server) \<and>
   conversation_exists ''c1'' (db chat_server) \<and>
   filter (\<lambda>m. m_conversationId m = ''c1'') (messages (db chat_server)) = [] \<and>
   sorted_wrt (<) (map fst two_sends) \<and>
   map m_content (getConversationMessages by_time_desc ''c1'' default_limit None
       (db (send_all two_sends ''c1'' alice_socket chat_server))) = [''hi'', ''there''] \<and>
   map m_content (getConversationMessages by_time_desc ''c1'' 1 None
       (db (send_all two_sends ''c1'' alice_socket chat_server))) = [''there'']"
proof -
  have a: "userId alice_socket = Some ''u1''" by (simp add: example_defs)
  have b: "''u1'' \<noteq> []" by simp
  have c: "user_exists ''u1'' (db chat_server)" by (simp add: example_defs user_exists_def)
  have d: "conversation_exists ''c1'' (db chat_server)"
    by (simp add: example_defs conversation_exists_def)
  have e: "filter (\<lambda>m. m_conversationId m = ''c1'') (messages (db chat_server)) = []"
    by (simp add: example_defs)
  have f: "sorted_wrt (<) (map fst two_sends)" by (simp add: two_sends_def)
  have g: "contents_of two_sends = [''hi'', ''there'']" "length two_sends = 2"
    by (simp_all add: contents_of_def two_sends_def)
  note o = descending_by_time_desc
  from history_is_last_page[OF o a b c d e f, of default_limit]
    history_is_last_page[OF o a b c d e f, of 1] o a c d e f g
  show ?thesis by (simp add: default_limit_def)
qed

lemma length_fifty_one: "length fifty_one = 51"
  by (simp add: fifty_one_def)

lemma times_fifty_one: "sorted_wrt (<) (map fst fifty_one)"
  by (simp add: fifty_one_def map_fst_zip)

lemma contents_fifty_one: "contents_of fifty_one = map show_nat [1..<52]"
proof -
  have "map snd (map snd fifty_one) = map show_nat [1..<52]"
    unfolding fifty_one_def by (simp only: map_snd_zip length_map length_zip min.idem)
  then show ?thesis by (simp add: contents_of_def o_def)
qed

text \<open>
  Claim C5, as stated, fails: after 51 messages with contents \<open>1\<close>, ..., \<open>51\<close> the
  history with the default limit has 50 entries; the oldest message is missing.
\<close>

theorem history_truncated_counterexample:
  "length fifty_one = 51 \<and> userId alice_socket = Some ''u1'' \<and>
   length (messages (db (send_all fifty_one ''c1'' alice_socket chat_server))) = 51 \<and>
   length (getConversationMessages by_time_desc ''c1'' default_limit None
             (db (send_all fifty_one ''c1'' alice_socket chat_server))) = 50 \<and>
   map m_content (getConversationMessages by_time_desc ''c1'' default_limit None
             (db (send_all fifty_one ''c1'' alice_socket chat_server))) = drop 1 (contents_of fifty_one) \<and>
   map m_content (getConversationMessages by_time_desc ''c1'' default_limit None
             (db (send_all fifty_one ''c1'' alice_socket chat_server))) \<noteq> contents_of fifty_one"
proof -
  have a: "userId alice_socket = Some ''u1''" by (simp add: example_defs)
  have b: "''u1'' \<noteq> []" by simp
  have c: "user_exists ''u1'' (db chat_server)" by (simp add: example_defs user_exists_def)
  have d: "conversation_exists ''c1'' (db chat_server)"
    by (simp add: example_defs conversation_exists_def)
  have e: "filter (\<lambda>m. m_conversationId m = ''c1'') (messages (db chat_server)) = []"
    by (simp add: example_defs)
  have m: "messages (db chat_server) = []" by (simp add: example_defs)
  have len: "length (contents_of fifty_one) = 51"
    by (simp add: contents_of_def length_fifty_one)
  have h: "map m_content (getConversationMessages by_time_desc ''c1'' default_limit None
             (db (send_all fifty_one ''c1'' alice_socket chat_server))) = drop 1 (contents_of fifty_one)"
    using history_after_sends[OF descending_by_time_desc a b c d e times_fifty_one,
        of default_limit]
    by (simp add: default_limit_def length_fifty_one)
  from h have "length (map m_content (getConversationMessages by_time_desc ''c1'' default_limit None
             (db (send_all fifty_one ''c1'' alice_socket chat_server)))) = 50"
    by (simp add: len)
  then have l: "length (getConversationMessages by_time_desc ''c1'' default_limit None
             (db (send_all fifty_one ''c1'' alice_socket chat_server))) = 50"
    by simp
  have ne: "drop 1 (contents_of fifty_one) \<noteq> contents_of fifty_one"
  proof
    assume "drop 1 (contents_of fifty_one) = contents_of fifty_one"
    then have "length (drop 1 (contents_of fifty_one)) = length (contents_of fifty_one)" by simp
    then show False by (simp add: len)
  qed
  have p: "length (messages (db (send_all fifty_one ''c1'' alice_socket chat_server))) = 51"
    by (simp add: send_all_db[OF a b c d] m length_fifty_one)
  show ?thesis using a h l ne p length_fifty_one by simp
qed

section \<open>Failures of the language-model server\<close>

lemma processQueue_settled: "settled (processQueue d) = settled d"
  by (simp add: processQueue_def split: list.splits)

lemma resume_settled:
  "settled (processQueue_resume r res d) = settled d @ [(ticket r, settle res)]"
  by (simp add: processQueue_resume_def processQueue_settled)

text \<open>
  When the database calls made before the \<open>try\<close> block succeed, the execution ends
  with a string whatever \<open>fetch\<close> does, and a rejected \<open>fetch\<close> ends it with what the
  \<open>catch\<close> block makes of the error.
\<close>

lemma executeOllamaRequest_guarded:
  assumes "isDataQuery (analyzeQueryIntent toLowerCase userMessage) \<longrightarrow> \<not> isl (got_context w)"
    and "\<not> isl (got_history w)" and "saved_user w = None"
  shows "\<exists>reply. fst (executeOllamaRequest toLowerCase w uid userMessage model) = Inr reply"
  using assms
  by (cases "got_history w"; cases "got_context w")
     (auto simp: executeOllamaRequest_def Let_def)

lemma executeOllamaRequest_fetch_rejected:
  assumes "\<not> isl (got_context w)" and "\<not> isl (got_history w)" and "saved_user w = None"
    and "got_fetch w = FetchRejected e"
  shows "fst (executeOllamaRequest toLowerCase w uid userMessage model) = Inr (catch_block e)"
  using assms
  by (cases "got_history w"; cases "got_context w")
     (auto simp: executeOllamaRequest_def try_block_def Let_def)

lemma catch_block_fetch_failed:
  "catch_block (Error ''fetch failed'' c) = ''Sorry, I encountered an error: fetch failed''"
  by (simp add: catch_block_def)

text \<open>
  Claim C8 does not hold of the code when the server is unreachable. The execution
  does end with a string, so the promise of \<open>chatWithOllama\<close> is resolved and not
  rejected. But the \<open>catch\<close> block looks for \<open>ECONNREFUSED\<close> in the message of the error,
  and the error of a refused connection carries that code in its cause, not in its
  message: the reply is the general apology, the same as for another failure of the
  connection, and not the text about the unreachable server.
\<close>

theorem unreachable_backend_general_apology:
  "execution_result toLowerCase unreachable hello_request =
     Inr ''Sorry, I encountered an error: fetch failed'' \<and>
   execution_result toLowerCase connection_reset hello_request =
     Inr ''Sorry, I encountered an error: fetch failed'' \<and>
   settled (processQueue_resume hello_request
              (execution_result toLowerCase unreachable hello_request)
              (chatWithOllama ''u1'' ''hello'' None initial_dispatcher)) =
     [(0, Resolved ''Sorry, I encountered an error: fetch failed'')] \<and>
   ''Sorry, I encountered an error: fetch failed'' \<noteq> unreachable_apology"
proof -
  have a: "\<not> isl (got_context unreachable)" "\<not> isl (got_history unreachable)"
    "saved_user unreachable = None" "got_fetch unreachable = FetchRejected fetch_refused"
    by (simp_all add: unreachable_def all_fine_def)
  have b: "\<not> isl (got_context connection_reset)" "\<not> isl (got_history connection_reset)"
    "saved_user connection_reset = None" "got_fetch connection_reset = FetchRejected fetch_reset"
    by (simp_all add: connection_reset_def all_fine_def)
  have 1: "execution_result toLowerCase unreachable hello_request =
     Inr ''Sorry, I encountered an error: fetch failed''"
    unfolding execution_result_def
    by (simp only: executeOllamaRequest_fetch_rejected[OF a] fetch_refused_def
        catch_block_fetch_failed)
  have 2: "execution_result toLowerCase connection_reset hello_request =
     Inr ''Sorry, I encountered an error: fetch failed''"
    unfolding execution_result_def
    by (simp only: executeOllamaRequest_fetch_rejected[OF b] fetch_reset_def
        catch_block_fetch_failed)
  have s: "settled (chatWithOllama ''u1'' ''hello'' None initial_dispatcher) = []"
    by (simp add: chatWithOllama_def processQueue_def initial_dispatcher_def
        MAX_CONCURRENT_REQUESTS_def)
  have 3: "settled (processQueue_resume hello_request
              (execution_result toLowerCase unreachable hello_request)
              (chatWithOllama ''u1'' ''hello'' None initial_dispatcher)) =
     [(0, Resolved ''Sorry, I encountered an error: fetch failed'')]"
  proof -
    have t: "ticket hello_request = 0" by (simp add: hello_request_def)
    show ?thesis by (simp add: resume_settled 1 s settle_def t)
  qed
  have 4: "''Sorry, I encountered an error: fetch failed'' \<noteq> unreachable_apology"
    by (simp add: unreachable_apology_def)
  show ?thesis using 1 2 3 4 by blast
qed

end
